theory Spec2Isabelle
  imports Complex_Main "HOL-Library.Log_Nat"
begin

section \<open>Thermos runner helper: checkpoint-driven task killing\<close>

text \<open>
  A shallow embedding of \<^verbatim>\<open>src/python/twitter/thermos/runner/helper.py\<close>
  (class \<^verbatim>\<open>TaskRunnerHelper\<close>). Every method becomes a function from the
  state of the world before the call to a result and the state of the world after it;
  a raised exception is \<open>Inl\<close> of the result, and the world it leaves behind is
  returned with it, since records written and signals sent before a raise stay written
  and sent.

  Logging has no effect on any state modelled here and is left out.
\<close>

subsection \<open>Python floats\<close>

text \<open>
  Clock readings, wall times and the times of a checkpoint record are Python floats:
  IEEE 754 binary64 values. A finite one is given by its real value; the sign of zero is
  left out, since no operation used here observes it.
\<close>

datatype double = Finite real | PosInf | NegInf | NaN

definition pow2 :: "int \<Rightarrow> real" where
  "pow2 e = (if 0 \<le> e then 2 ^ nat e else 1 / 2 ^ nat (- e))"

text \<open>The exponent \<open>e\<close> of a real \<open>x \<noteq> 0\<close>: \<open>2\<^sup>e \<le> \<bar>x\<bar> < 2\<^sup>e\<^sup>+\<^sup>1\<close>.\<close>

definition double_exponent :: "real \<Rightarrow> int" where
  "double_exponent x =
     (if 1 \<le> \<bar>x\<bar> then bitlen \<lfloor>\<bar>x\<bar>\<rfloor> - 1 else - bitlen (\<lceil>1 / \<bar>x\<bar>\<rceil> - 1))"

text \<open>The nearest integer; of two equally near ones, the even one.\<close>

definition round_half_even :: "real \<Rightarrow> int" where
  "round_half_even x =
     (let f = \<lfloor>x\<rfloor>; d = x - of_int f in
      if d < 1 / 2 then f else if 1 / 2 < d then f + 1 else if even f then f else f + 1)"

text \<open>
  The result of an arithmetic operation whose exact value is \<open>x\<close>: \<open>x\<close> rounded
  to the nearest multiple of the unit in the last place (53 significant bits, exponents
  from -1022), ties to even, and to an infinity from \<open>2\<^sup>1\<^sup>0\<^sup>2\<^sup>4\<close> on.
\<close>

definition round_double :: "real \<Rightarrow> double" where
  "round_double x =
     (if x = 0 then Finite 0
      else
        (let e = max (double_exponent x) (- 1022);
             ulp = pow2 (e - 52);
             r = of_int (round_half_even (x / ulp)) * ulp
         in if pow2 1024 \<le> \<bar>r\<bar> then (if 0 < x then PosInf else NegInf) else Finite r))"

text \<open>\<^verbatim>\<open>a - b\<close> on floats.\<close>

fun dsub :: "double \<Rightarrow> double \<Rightarrow> double" where
  "dsub NaN _ = NaN"
| "dsub _ NaN = NaN"
| "dsub (Finite a) (Finite b) = round_double (a - b)"
| "dsub (Finite a) PosInf = NegInf"
| "dsub (Finite a) NegInf = PosInf"
| "dsub PosInf PosInf = NaN"
| "dsub PosInf _ = PosInf"
| "dsub NegInf NegInf = NaN"
| "dsub NegInf _ = NegInf"

text \<open>\<^verbatim>\<open>a * b\<close> on floats.\<close>

fun dmul :: "double \<Rightarrow> double \<Rightarrow> double" where
  "dmul NaN _ = NaN"
| "dmul _ NaN = NaN"
| "dmul (Finite a) (Finite b) = round_double (a * b)"
| "dmul (Finite a) PosInf = (if a = 0 then NaN else if 0 < a then PosInf else NegInf)"
| "dmul (Finite a) NegInf = (if a = 0 then NaN else if 0 < a then NegInf else PosInf)"
| "dmul PosInf (Finite b) = (if b = 0 then NaN else if 0 < b then PosInf else NegInf)"
| "dmul NegInf (Finite b) = (if b = 0 then NaN else if 0 < b then NegInf else PosInf)"
| "dmul PosInf PosInf = PosInf"
| "dmul PosInf NegInf = NegInf"
| "dmul NegInf PosInf = NegInf"
| "dmul NegInf NegInf = PosInf"

text \<open>\<^verbatim>\<open>abs(a)\<close> on a float.\<close>

fun dabs :: "double \<Rightarrow> double" where
  "dabs (Finite a) = Finite \<bar>a\<bar>"
| "dabs PosInf = PosInf"
| "dabs NegInf = PosInf"
| "dabs NaN = NaN"

text \<open>
  \<^verbatim>\<open>a >= n\<close> for a float and a number that is not a float (Python compares the
  two exactly); every comparison with NaN is false.
\<close>

fun dge :: "double \<Rightarrow> real \<Rightarrow> bool" where
  "dge (Finite a) n = (n \<le> a)"
| "dge PosInf n = True"
| "dge NegInf n = False"
| "dge NaN n = False"

subsection \<open>Checkpoint records\<close>

text \<open>
  Modelled from the spec: the Thrift-generated types of
  \<^verbatim>\<open>gen.twitter.thermos.ttypes\<close> (\<^verbatim>\<open>TaskState\<close>,
  \<^verbatim>\<open>ProcessState\<close>, \<^verbatim>\<open>TaskStatus\<close>, \<^verbatim>\<open>ProcessStatus\<close>,
  \<^verbatim>\<open>RunnerCkpt\<close>) and the replayed \<^verbatim>\<open>RunnerState\<close> are not part of
  the source file. The fields are those the source reads and writes; the fields that the
  source leaves unset when it builds a record are optional.
\<close>

datatype task_state = T_ACTIVE | T_SUCCESS | T_FAILED | T_KILLED | T_LOST

datatype process_state =
  P_WAITING | P_FORKED | P_RUNNING | P_SUCCESS | P_KILLED | P_FAILED | P_LOST

record task_status =
  tstate :: task_state
  timestamp_ms :: int
  runner_pid :: int
  runner_uid :: int

record process_status =
  process :: string
  pstate :: process_state
  seq :: int
  fork_time :: "double option"
  coordinator_pid :: "int option"
  start_time :: "double option"
  pid :: "int option"
  stop_time :: "double option"
  return_code :: "int option"

datatype runner_ckpt = Task_status task_status | Process_status process_status

record runner_header =
  user :: string

text \<open>
  \<^verbatim>\<open>state.processes\<close> is a dictionary from process name to the history of
  that process; it is an association list here, in the order in which
  \<^verbatim>\<open>items()\<close> enumerates it.
\<close>

record runner_state =
  header :: "runner_header option"
  statuses :: "task_status list option"
  processes :: "(string \<times> process_status list) list"

subsection \<open>The world outside the helper\<close>

datatype signal = SIGTERM | SIGKILL

datatype errno = EPERM | ESRCH | EINVAL

text \<open>What one call of \<^verbatim>\<open>os.kill\<close> does: it returns, or raises \<^verbatim>\<open>OSError\<close>.\<close>

datatype kill_outcome = Delivered | Fails errno

text \<open>
  What \<^verbatim>\<open>lock_file\<close> returns: \<^verbatim>\<open>None\<close> when the file cannot be
  opened, \<^verbatim>\<open>False\<close> when another process holds the lock, the open file otherwise.
\<close>

datatype lock_result = Lock_None | Lock_False | Lock_Fp

datatype error =
  AssertionError | PermissionError | OSError errno | TypeError | IndexError | KeyError
  | AttributeError | OverflowError | ValueError
  | Blocks \<comment> \<open>not an exception: the blocking \<^verbatim>\<open>lock_file\<close> never returns\<close>

record process_handle =
  h_pid :: int
  h_user :: string
  h_wall_time :: double

text \<open>
  One snapshot of the process table, as the process provider \<^verbatim>\<open>PS\<close> holds it
  after \<^verbatim>\<open>collect_all()\<close>: \<^verbatim>\<open>pids()\<close> is the domain of
  \<open>handles\<close>, \<^verbatim>\<open>get_handle\<close> looks a pid up, and
  \<^verbatim>\<open>children_of(pid, all=True)\<close> is \<open>children_of\<close>.
\<close>

record ps_table =
  handles :: "int \<rightharpoonup> process_handle"
  children_of :: "int \<Rightarrow> int list"

text \<open>
  A clock argument is either the \<^verbatim>\<open>time\<close> module (the default of every
  \<^verbatim>\<open>clock=time\<close> parameter) or an injected object, given by the sequence of
  readings its \<^verbatim>\<open>time()\<close> method returns.
\<close>

datatype clock = SystemTime | Injected "nat \<Rightarrow> double"

text \<open>
  The world. Results of calls that leave the program are read from it:
  the readings of the system clock, the successive snapshots of the process table,
  the outcome of \<^verbatim>\<open>os.kill\<close> for each target, what \<^verbatim>\<open>lock_file\<close>
  returns without and with blocking (\<open>None\<close>: it never returns), and the state
  that \<^verbatim>\<open>CheckpointDispatcher.from_file\<close> replays from the records of the
  checkpoint. The helper's own effects are written to it: the \<^verbatim>\<open>os.kill\<close>
  calls made, in order; the records appended to the checkpoint; whether a checkpoint
  writer is open; the task files of the two lifecycle states. The world models the
  files of one task, so \<^verbatim>\<open>task_id\<close>, \<^verbatim>\<open>checkpoint_root\<close> and the
  paths derived from them are not parameters.
\<close>

record world =
  getpid :: int
  getuid :: int
  sys_clock :: "nat \<Rightarrow> double"
  sys_reads :: nat
  inj_reads :: nat
  ps_snapshots :: "nat \<Rightarrow> ps_table"
  ps_collects :: nat
  ps_cur :: ps_table
  kill_result :: "int \<Rightarrow> signal \<Rightarrow> kill_outcome"
  signals :: "(int \<times> signal) list"
  lock_nonblocking :: lock_result
  lock_blocking :: "lock_result option"
  from_file :: "runner_ckpt list \<Rightarrow> runner_state option"
  ckpt_log :: "runner_ckpt list"
  writer_open :: bool
  active_task :: "string option"
  finished_task :: "string option"

text \<open>\<^verbatim>\<open>clock.time()\<close>: the next reading of the clock.\<close>

fun clock_time :: "clock \<Rightarrow> world \<Rightarrow> double \<times> world" where
  "clock_time SystemTime w = (sys_clock w (sys_reads w), w\<lparr>sys_reads := Suc (sys_reads w)\<rparr>)"
| "clock_time (Injected f) w = (f (inj_reads w), w\<lparr>inj_reads := Suc (inj_reads w)\<rparr>)"

text \<open>\<^verbatim>\<open>PS.collect_all()\<close>: the provider takes the next snapshot.\<close>

definition collect_all :: "world \<Rightarrow> world" where
  "collect_all w =
     w\<lparr>ps_cur := ps_snapshots w (ps_collects w), ps_collects := Suc (ps_collects w)\<rparr>"

text \<open>
  \<^verbatim>\<open>int(x)\<close> on a float truncates towards zero; it raises
  \<^verbatim>\<open>OverflowError\<close> on an infinity and \<^verbatim>\<open>ValueError\<close> on NaN.
\<close>

fun py_int :: "double \<Rightarrow> error + int" where
  "py_int (Finite x) = Inr (if 0 \<le> x then \<lfloor>x\<rfloor> else \<lceil>x\<rceil>)"
| "py_int PosInf = Inl OverflowError"
| "py_int NegInf = Inl OverflowError"
| "py_int NaN = Inl ValueError"

text \<open>The truth value of an optional pid in \<^verbatim>\<open>if pid:\<close> (\<^verbatim>\<open>None\<close> and 0 are false).\<close>

definition truthy :: "int option \<Rightarrow> bool" where
  "truthy p = (case p of None \<Rightarrow> False | Some n \<Rightarrow> n \<noteq> 0)"

subsection \<open>Pid ownership\<close>

definition MAX_START_TIME_DRIFT :: real where
  "MAX_START_TIME_DRIFT = 10"

definition this_is_really_our_pid ::
  "process_handle \<Rightarrow> string \<Rightarrow> double option \<Rightarrow> clock \<Rightarrow> world
     \<Rightarrow> (error + bool) \<times> world" where
  "this_is_really_our_pid process_handle current_user start_time' clock w =
     (if h_user process_handle \<noteq> current_user then (Inr False, w)
      else
        (case clock_time clock w of (now, w1) \<Rightarrow>
           let estimated_start_time = dsub now (h_wall_time process_handle) in
           (case start_time' of
              None \<Rightarrow> (Inl TypeError, w1)
            | Some t \<Rightarrow>
                if dge (dabs (dsub t estimated_start_time)) MAX_START_TIME_DRIFT
                then (Inr False, w1)
                else (Inr True, w1))))"

subsection \<open>Scanning the process table\<close>

text \<open>Lines 115-121 of the source: the coordinator, always checked against the system clock.\<close>

definition scan_coordinator ::
  "ps_table \<Rightarrow> process_status \<Rightarrow> string \<Rightarrow> world \<Rightarrow> (error + int option) \<times> world" where
  "scan_coordinator ps process_run process_owner w =
     (if truthy (coordinator_pid process_run) then
        (let cp = the (coordinator_pid process_run) in
         case handles ps cp of
           None \<Rightarrow> (Inr None, w)
         | Some h \<Rightarrow>
             (case this_is_really_our_pid h process_owner (fork_time process_run) SystemTime w of
                (Inl e, w1) \<Rightarrow> (Inl e, w1)
              | (Inr ok, w1) \<Rightarrow> (Inr (if ok then Some cp else None), w1)))
      else (Inr None, w))"

text \<open>
  Lines 123-131: the process itself, checked against the clock argument, and its
  descendants. \<^verbatim>\<open>set(subtree)\<close> is the list without its duplicates; the order
  in which Python enumerates a set is not fixed by the language.
\<close>

definition scan_pid ::
  "ps_table \<Rightarrow> process_status \<Rightarrow> string \<Rightarrow> clock \<Rightarrow> world
     \<Rightarrow> (error + int option \<times> int list) \<times> world" where
  "scan_pid ps process_run process_owner clock w =
     (if truthy (pid process_run) then
        (let p = the (pid process_run) in
         case handles ps p of
           None \<Rightarrow> (Inr (None, []), w)
         | Some h \<Rightarrow>
             (case this_is_really_our_pid h process_owner (start_time process_run) clock w of
                (Inl e, w1) \<Rightarrow> (Inl e, w1)
              | (Inr ok, w1) \<Rightarrow>
                  (if ok then (Inr (Some p, remdups (children_of ps p)), w1)
                   else (Inr (None, []), w1))))
      else (Inr (None, []), w))"

definition scan_process ::
  "runner_state \<Rightarrow> string \<Rightarrow> clock \<Rightarrow> ps_table option \<Rightarrow> world
     \<Rightarrow> (error + int option \<times> int option \<times> int list) \<times> world" where
  "scan_process state process_name clock ps_arg w =
     (case map_of (processes state) process_name of
        None \<Rightarrow> (Inl KeyError, w)
      | Some history \<Rightarrow>
          if history = [] then (Inl IndexError, w)
          else
            (case header state of
               None \<Rightarrow> (Inl AttributeError, w)
             | Some hdr \<Rightarrow>
                 let process_run = last history;
                     process_owner = user hdr;
                     w0 = (case ps_arg of None \<Rightarrow> collect_all w | Some _ \<Rightarrow> w);
                     ps = (case ps_arg of None \<Rightarrow> ps_cur w0 | Some t \<Rightarrow> t)
                 in
                 (case scan_coordinator ps process_run process_owner w0 of
                    (Inl e, w1) \<Rightarrow> (Inl e, w1)
                  | (Inr coordinator_pid', w1) \<Rightarrow>
                      (case scan_pid ps process_run process_owner clock w1 of
                         (Inl e, w2) \<Rightarrow> (Inl e, w2)
                       | (Inr (pid', tree), w2) \<Rightarrow> (Inr (coordinator_pid', pid', tree), w2)))))"

subsection \<open>Signals\<close>

text \<open>
  \<^verbatim>\<open>safe_signal\<close> calls \<^verbatim>\<open>os.kill\<close> and swallows every exception,
  so the outcome of the call changes nothing but the log.
\<close>

definition safe_signal :: "int \<Rightarrow> signal \<Rightarrow> world \<Rightarrow> world" where
  "safe_signal p sig w = w\<lparr>signals := signals w @ [(p, sig)]\<rparr>"

definition terminate_pid :: "int \<Rightarrow> world \<Rightarrow> world" where
  "terminate_pid p w = safe_signal p SIGTERM w"

definition kill_pid :: "int \<Rightarrow> world \<Rightarrow> world" where
  "kill_pid p w = safe_signal p SIGKILL w"

definition kill_group :: "int \<Rightarrow> world \<Rightarrow> world" where
  "kill_group pgrp w = safe_signal (- pgrp) SIGKILL w"

definition get_process_tuple ::
  "runner_state \<Rightarrow> string \<Rightarrow> world
     \<Rightarrow> (error + int option \<times> int option \<times> int list) \<times> world" where
  "get_process_tuple state process_name w =
     (case map_of (processes state) process_name of
        None \<Rightarrow> (Inl AssertionError, w)
      | Some history \<Rightarrow>
          if history = [] then (Inl AssertionError, w)
          else
            (let w1 = collect_all w
             in scan_process state process_name SystemTime (Some (ps_cur w1)) w1))"

definition get_coordinator_group :: "runner_state \<Rightarrow> string \<Rightarrow> error + int option" where
  "get_coordinator_group state process_name =
     (case map_of (processes state) process_name of
        None \<Rightarrow> Inl AssertionError
      | Some history \<Rightarrow>
          if history = [] then Inl AssertionError
          else Inr (coordinator_pid (last history)))"

definition terminate_process :: "runner_state \<Rightarrow> string \<Rightarrow> world \<Rightarrow> (error + bool) \<times> world" where
  "terminate_process state process_name w =
     (case get_process_tuple state process_name w of
        (Inl e, w1) \<Rightarrow> (Inl e, w1)
      | (Inr (_, pid', _), w1) \<Rightarrow>
          (Inr (truthy pid'), if truthy pid' then terminate_pid (the pid') w1 else w1))"

definition kill_process :: "runner_state \<Rightarrow> string \<Rightarrow> world \<Rightarrow> (error + bool) \<times> world" where
  "kill_process state process_name w =
     (case get_coordinator_group state process_name of
        Inl e \<Rightarrow> (Inl e, w)
      | Inr coordinator_pgid \<Rightarrow>
          (case get_process_tuple state process_name w of
             (Inl e, w1) \<Rightarrow> (Inl e, w1)
           | (Inr (coordinator_pid', pid', tree), w1) \<Rightarrow>
               let w2 = (if truthy coordinator_pgid then kill_group (the coordinator_pgid) w1
                         else w1);
                   w3 = (if truthy coordinator_pid' then kill_pid (the coordinator_pid') w2
                         else w2);
                   w4 = (if truthy pid' then kill_pid (the pid') w3 else w3);
                   w5 = fold kill_pid tree w4
               in (Inr (truthy coordinator_pid' \<or> truthy pid' \<or> tree \<noteq> []), w5)))"

subsection \<open>The checkpoint lock\<close>

definition kill_runner :: "runner_state option \<Rightarrow> world \<Rightarrow> (error + bool) \<times> world" where
  "kill_runner state w =
     (case state of
        None \<Rightarrow> (Inl AssertionError, w)
      | Some st \<Rightarrow>
          (case statuses st of
             None \<Rightarrow> (Inl AssertionError, w)
           | Some sts \<Rightarrow>
               if sts = [] then (Inl AssertionError, w)
               else
                 (let p = runner_pid (last sts) in
                  if p = getpid w then (Inl AssertionError, w)
                  else
                    (let w1 = w\<lparr>signals := signals w @ [(p, SIGKILL)]\<rparr> in
                     case kill_result w p SIGKILL of
                       Delivered \<Rightarrow> (Inr True, w1)
                     | Fails e \<Rightarrow>
                         if e = EPERM then (Inr False, w1)
                         else if e = ESRCH then (Inr True, w1)
                         else (Inl (OSError e), w1)))))"

text \<open>
  \<^verbatim>\<open>lock_file(filename, "a+")\<close> creates the checkpoint file when it is absent
  and appends nothing. The writer returned is the only one the world has, so the result
  carries no handle: \<open>writer_open\<close> records that it is open.
\<close>

definition open_checkpoint ::
  "bool \<Rightarrow> runner_state option \<Rightarrow> world \<Rightarrow> (error + unit) \<times> world" where
  "open_checkpoint force state w =
     (let fp = lock_nonblocking w in
      case
        (if fp \<in> {Lock_None, Lock_False} then
           (if force then
              (let state' = (case state of Some s \<Rightarrow> Some s
                                         | None \<Rightarrow> from_file w (ckpt_log w)) in
               case kill_runner state' w of
                 (Inl e, w1) \<Rightarrow> (Inl e, w1)
               | (Inr killed, w1) \<Rightarrow>
                   if killed then
                     (case lock_blocking w1 of
                        None \<Rightarrow> (Inl Blocks, w1)
                      | Some fp' \<Rightarrow> (Inr fp', w1))
                   else (Inr fp, w1))
            else (Inr fp, w))
         else (Inr fp, w))
      of
        (Inl e, w1) \<Rightarrow> (Inl e, w1)
      | (Inr fp', w1) \<Rightarrow>
          if fp' \<in> {Lock_None, Lock_False} then (Inl PermissionError, w1)
          else (Inr (), w1\<lparr>writer_open := True\<rparr>))"

subsection \<open>Task lifecycle files\<close>

definition initialize_task :: "string \<Rightarrow> world \<Rightarrow> (error + unit) \<times> world" where
  "initialize_task task w =
     (let is_active = (active_task w \<noteq> None); is_finished = (finished_task w \<noteq> None) in
      if is_finished then (Inl AssertionError, w)
      else if \<not> is_active then (Inr (), w\<lparr>active_task := Some task\<rparr>)
      else (Inr (), w))"

text \<open>
  \<^verbatim>\<open>os.rename\<close> moves the active file to the finished path;
  \<^verbatim>\<open>os.utime\<close> touches only its modification time, which is not part of the world.
\<close>

definition finalize_task :: "world \<Rightarrow> (error + unit) \<times> world" where
  "finalize_task w =
     (let is_active = (active_task w \<noteq> None); is_finished = (finished_task w \<noteq> None) in
      if \<not> (is_active \<and> \<not> is_finished) then (Inl AssertionError, w)
      else (Inr (), w\<lparr>finished_task := active_task w, active_task := None\<rparr>))"

subsection \<open>Killing a task\<close>

definition TERMINAL_PROCESS_STATES :: "process_state set" where
  "TERMINAL_PROCESS_STATES = {P_SUCCESS, P_KILLED, P_FAILED, P_LOST}"

definition TERMINAL_TASK_STATES :: "task_state set" where
  "TERMINAL_TASK_STATES = {T_SUCCESS, T_FAILED, T_KILLED, T_LOST}"

definition is_process_terminal :: "process_state \<Rightarrow> bool" where
  "is_process_terminal s = (s \<in> TERMINAL_PROCESS_STATES)"

definition is_task_terminal :: "task_state \<Rightarrow> bool" where
  "is_task_terminal s = (s \<in> TERMINAL_TASK_STATES)"

text \<open>\<^verbatim>\<open>ckpt.write(record)\<close> and \<^verbatim>\<open>ckpt.close()\<close>.\<close>

definition ckpt_write :: "runner_ckpt \<Rightarrow> world \<Rightarrow> world" where
  "ckpt_write r w = w\<lparr>ckpt_log := ckpt_log w @ [r]\<rparr>"

definition ckpt_close :: "world \<Rightarrow> world" where
  "ckpt_close w = w\<lparr>writer_open := False\<rparr>"

definition write_task_state ::
  "clock \<Rightarrow> task_state \<Rightarrow> world \<Rightarrow> (error + unit) \<times> world" where
  "write_task_state clock s w =
     (case clock_time clock w of (now, w1) \<Rightarrow>
        (case py_int (dmul now (Finite 1000)) of
           Inl e \<Rightarrow> (Inl e, w1)
         | Inr ms \<Rightarrow>
             (Inr (), ckpt_write (Task_status \<lparr>tstate = s, timestamp_ms = ms,
                                               runner_pid = getpid w1,
                                               runner_uid = getuid w1\<rparr>) w1)))"

definition write_process_status :: "process_status \<Rightarrow> world \<Rightarrow> world" where
  "write_process_status status w = ckpt_write (Process_status status) w"

text \<open>The body of the loop over \<^verbatim>\<open>state.processes.items()\<close> (lines 292-301).\<close>

definition kill_one ::
  "runner_state \<Rightarrow> clock \<Rightarrow> string \<times> process_status list \<Rightarrow> world \<Rightarrow> (error + unit) \<times> world" where
  "kill_one state clock item w =
     (case item of (process', history) \<Rightarrow>
        if history = [] then (Inl IndexError, w)
        else
          (let process_status = last history in
           if \<not> is_process_terminal (pstate process_status) then
             (case kill_process state process' w of
                (Inl e, w1) \<Rightarrow> (Inl e, w1)
              | (Inr found, w1) \<Rightarrow>
                  if found then
                    (case clock_time clock w1 of (now, w2) \<Rightarrow>
                       (Inr (), write_process_status
                          \<lparr>process = process', pstate = P_KILLED, seq = seq process_status + 1,
                           fork_time = None, coordinator_pid = None, start_time = None,
                           pid = None, stop_time = Some now, return_code = Some (- 9)\<rparr> w2))
                  else if pstate process_status \<noteq> P_WAITING then
                    (Inr (), write_process_status
                       \<lparr>process = process', pstate = P_LOST, seq = seq process_status + 1,
                        fork_time = None, coordinator_pid = None, start_time = None,
                        pid = None, stop_time = None, return_code = None\<rparr> w1)
                  else (Inr (), w1))
           else (Inr (), w)))"

fun kill_processes ::
  "runner_state \<Rightarrow> clock \<Rightarrow> (string \<times> process_status list) list \<Rightarrow> world
     \<Rightarrow> (error + unit) \<times> world" where
  "kill_processes state clock [] w = (Inr (), w)"
| "kill_processes state clock (item # items) w =
     (case kill_one state clock item w of
        (Inl e, w1) \<Rightarrow> (Inl e, w1)
      | (Inr _, w1) \<Rightarrow> kill_processes state clock items w1)"

text \<open>The block under \<^verbatim>\<open>with closing(ckpt)\<close> (lines 290-302).\<close>

definition kill_body ::
  "runner_state \<Rightarrow> task_state \<Rightarrow> clock \<Rightarrow> world \<Rightarrow> (error + unit) \<times> world" where
  "kill_body state terminal_status clock w =
     (case write_task_state clock T_ACTIVE w of
        (Inl e, w0) \<Rightarrow> (Inl e, w0)
      | (Inr _, w0) \<Rightarrow>
          (case kill_processes state clock (processes state) w0 of
             (Inl e, w1) \<Rightarrow> (Inl e, w1)
           | (Inr _, w1) \<Rightarrow> write_task_state clock terminal_status w1))"

definition kill :: "bool \<Rightarrow> task_state \<Rightarrow> clock \<Rightarrow> world \<Rightarrow> (error + unit) \<times> world" where
  "kill force terminal_status clock w =
     (if terminal_status \<notin> {T_KILLED, T_LOST} then (Inl AssertionError, w)
      else
        (let state = from_file w (ckpt_log w) in
         case open_checkpoint force state w of
           (Inl e, w1) \<Rightarrow> (Inl e, w1)
         | (Inr _, w1) \<Rightarrow>
             (case state of
                None \<Rightarrow> (Inr (), w1)
              | Some st \<Rightarrow>
                  if header st = None \<or> statuses st = None then (Inr (), w1)
                  else if the (statuses st) = [] then (Inl IndexError, w1)
                  else if is_task_terminal (tstate (last (the (statuses st)))) then
                    finalize_task w1
                  else
                    (case kill_body st terminal_status clock w1 of
                       (Inl e, w2) \<Rightarrow> (Inl e, ckpt_close w2)
                     | (Inr _, w2) \<Rightarrow> finalize_task (ckpt_close w2)))))"

text \<open>\<^verbatim>\<open>TaskKiller.kill\<close> and \<^verbatim>\<open>TaskKiller.lose\<close>.\<close>

definition TaskKiller_kill :: "bool \<Rightarrow> world \<Rightarrow> (error + unit) \<times> world" where
  "TaskKiller_kill force w = kill force T_KILLED SystemTime w"

definition TaskKiller_lose :: "bool \<Rightarrow> world \<Rightarrow> (error + unit) \<times> world" where
  "TaskKiller_lose force w = kill force T_LOST SystemTime w"

subsection \<open>Auxiliary notions for the proofs\<close>

text \<open>
  \<open>untouched w w'\<close>: from \<open>w\<close> to \<open>w'\<close> nothing was written and no signal was
  sent (clocks were read, the process table was scanned). \<open>unwritten\<close> allows signals.
\<close>

definition untouched :: "world \<Rightarrow> world \<Rightarrow> bool" where
  "untouched w w' =
     (ckpt_log w' = ckpt_log w \<and> writer_open w' = writer_open w
      \<and> active_task w' = active_task w \<and> finished_task w' = finished_task w
      \<and> signals w' = signals w \<and> from_file w' = from_file w
      \<and> getpid w' = getpid w \<and> getuid w' = getuid w)"

definition unwritten :: "world \<Rightarrow> world \<Rightarrow> bool" where
  "unwritten w w' =
     (ckpt_log w' = ckpt_log w \<and> writer_open w' = writer_open w
      \<and> active_task w' = active_task w \<and> finished_task w' = finished_task w
      \<and> from_file w' = from_file w \<and> getpid w' = getpid w \<and> getuid w' = getuid w)"

text \<open>
  What the loop of \<open>kill\<close> may append for the process \<open>n\<close> with history \<open>h\<close>:
  a record that continues the history, \<^verbatim>\<open>KILLED\<close>, or \<^verbatim>\<open>LOST\<close> when the
  process was not waiting.
\<close>

definition appended_ok :: "string \<Rightarrow> process_status list \<Rightarrow> process_status \<Rightarrow> bool" where
  "appended_ok n h r =
     (h \<noteq> [] \<and> \<not> is_process_terminal (pstate (last h)) \<and> process r = n
      \<and> seq r = seq (last h) + 1
      \<and> (pstate r = P_KILLED \<or> pstate r = P_LOST \<and> pstate (last h) \<noteq> P_WAITING))"

text \<open>
  The records one run of the block under \<^verbatim>\<open>with closing(ckpt)\<close> appends: the
  \<^verbatim>\<open>ACTIVE\<close> task status, process records, and at most one final task status.
\<close>

definition kill_appended :: "runner_state \<Rightarrow> runner_ckpt list \<Rightarrow> bool" where
  "kill_appended st recs =
     (\<exists>a rs tl. recs = Task_status a # map Process_status rs @ map Task_status tl
        \<and> tstate a = T_ACTIVE \<and> length tl \<le> 1
        \<and> (\<forall>r\<in>set rs. \<exists>h. (process r, h) \<in> set (processes st) \<and> appended_ok (process r) h r)
        \<and> (distinct (map fst (processes st)) \<longrightarrow> distinct (map process rs)))"

subsection \<open>Example worlds\<close>

text \<open>
  A process table with a coordinator (4241), its process (4242) and one child of that
  process (4243), all of user alice. With the system clock at 1005, the coordinator
  started at 999 and the process at 1000.
\<close>

definition example_table :: ps_table where
  "example_table =
     \<lparr>handles = [4241 \<mapsto> \<lparr>h_pid = 4241, h_user = ''alice'', h_wall_time = Finite 6\<rparr>,
                 4242 \<mapsto> \<lparr>h_pid = 4242, h_user = ''alice'', h_wall_time = Finite 5\<rparr>,
                 4243 \<mapsto> \<lparr>h_pid = 4243, h_user = ''alice'', h_wall_time = Finite 4\<rparr>],
      children_of = (\<lambda>p. if p = 4242 then [4243] else [])\<rparr>"

text \<open>
  An active task with three processes: one waiting, one running and alive in
  \<open>example_table\<close>, one running according to the checkpoint but gone from the table.
\<close>

definition example_state :: runner_state where
  "example_state =
     \<lparr>header = Some \<lparr>user = ''alice''\<rparr>,
      statuses = Some [\<lparr>tstate = T_ACTIVE, timestamp_ms = 999000, runner_pid = 77,
                        runner_uid = 1000\<rparr>],
      processes =
        [(''waiter'',
          [\<lparr>process = ''waiter'', pstate = P_WAITING, seq = 0, fork_time = None,
            coordinator_pid = None, start_time = None, pid = None, stop_time = None,
            return_code = None\<rparr>]),
         (''runner'',
          [\<lparr>process = ''runner'', pstate = P_WAITING, seq = 0, fork_time = None,
            coordinator_pid = None, start_time = None, pid = None, stop_time = None,
            return_code = None\<rparr>,
           \<lparr>process = ''runner'', pstate = P_RUNNING, seq = 2, fork_time = Some (Finite 999),
            coordinator_pid = Some 4241, start_time = Some (Finite 1000), pid = Some 4242,
            stop_time = None, return_code = None\<rparr>]),
         (''ghost'',
          [\<lparr>process = ''ghost'', pstate = P_RUNNING, seq = 2, fork_time = Some (Finite 990),
            coordinator_pid = None, start_time = Some (Finite 991), pid = Some 5555,
            stop_time = None, return_code = None\<rparr>])]\<rparr>"

text \<open>A task that has already succeeded.\<close>

definition terminal_state :: runner_state where
  "terminal_state =
     \<lparr>header = Some \<lparr>user = ''alice''\<rparr>,
      statuses = Some [\<lparr>tstate = T_ACTIVE, timestamp_ms = 999000, runner_pid = 77,
                        runner_uid = 1000\<rparr>,
                       \<lparr>tstate = T_SUCCESS, timestamp_ms = 1001000, runner_pid = 77,
                        runner_uid = 1000\<rparr>],
      processes = []\<rparr>"

text \<open>A checkpoint whose latest status is terminal and that replays without a header.\<close>

definition headerless_state :: runner_state where
  "headerless_state =
     \<lparr>header = None,
      statuses = Some [\<lparr>tstate = T_SUCCESS, timestamp_ms = 1001000, runner_pid = 77,
                        runner_uid = 1000\<rparr>],
      processes = []\<rparr>"

text \<open>
  A process that was run twice: the first run, with coordinator 4241, failed; the second
  run is alive as pid 4242 and its latest status records no coordinator.
\<close>

definition restarted_state :: runner_state where
  "restarted_state =
     \<lparr>header = Some \<lparr>user = ''alice''\<rparr>,
      statuses = Some [\<lparr>tstate = T_ACTIVE, timestamp_ms = 999000, runner_pid = 77,
                        runner_uid = 1000\<rparr>],
      processes =
        [(''runner'',
          [\<lparr>process = ''runner'', pstate = P_FAILED, seq = 3, fork_time = Some (Finite 900),
            coordinator_pid = Some 4241, start_time = Some (Finite 901), pid = Some 4000,
            stop_time = Some (Finite 950), return_code = Some 1\<rparr>,
           \<lparr>process = ''runner'', pstate = P_RUNNING, seq = 5, fork_time = None,
            coordinator_pid = None, start_time = Some (Finite 1000), pid = Some 4242,
            stop_time = None, return_code = None\<rparr>])]\<rparr>"

text \<open>
  A world in which the checkpoint replays to the given state, the lock is free, the task
  is active, and we are process 100.
\<close>

definition example_world :: "runner_state option \<Rightarrow> world" where
  "example_world st =
     \<lparr>getpid = 100, getuid = 1000, sys_clock = (\<lambda>_. Finite 1005), sys_reads = 0, inj_reads = 0,
      ps_snapshots = (\<lambda>_. example_table), ps_collects = 0,
      ps_cur = \<lparr>handles = Map.empty, children_of = (\<lambda>_. [])\<rparr>,
      kill_result = (\<lambda>_ _. Delivered), signals = [],
      lock_nonblocking = Lock_Fp, lock_blocking = Some Lock_Fp,
      from_file = (\<lambda>_. st), ckpt_log = [], writer_open = False,
      active_task = Some ''task'', finished_task = None\<rparr>"

section \<open>Properties\<close>

subsection \<open>Unfolding and framing lemmas\<close>

text \<open>
  The exponent is the one the definition of rounding needs, and the integer chosen by
  \<open>round_half_even\<close> is a nearest one.
\<close>

lemma double_exponent_bounds:
  assumes "x \<noteq> 0"
  shows "pow2 (double_exponent x) \<le> \<bar>x\<bar> \<and> \<bar>x\<bar> < pow2 (double_exponent x + 1)"
proof (cases "1 \<le> \<bar>x\<bar>")
  case True
  define m where "m = \<lfloor>\<bar>x\<bar>\<rfloor>"
  have m: "0 < m" "of_int m \<le> \<bar>x\<bar>" "\<bar>x\<bar> < of_int m + 1"
    using True by (auto simp add: m_def)
  have k: "1 \<le> bitlen m" using m(1) by (auto simp add: bitlen_alt_def)
  have b: "2 ^ nat (bitlen m - 1) \<le> m" "m < 2 ^ nat (bitlen m)"
    using bitlen_bounds [OF m(1)] by simp_all
  have e: "double_exponent x = bitlen m - 1"
    using True by (simp add: double_exponent_def m_def)
  have 1: "pow2 (bitlen m - 1) \<le> \<bar>x\<bar>"
  proof -
    have "(2::real) ^ nat (bitlen m - 1) \<le> of_int m"
      using b(1) by (metis of_int_le_iff of_int_numeral of_int_power)
    with m(2) have "(2::real) ^ nat (bitlen m - 1) \<le> \<bar>x\<bar>" by linarith
    with k show ?thesis by (simp add: pow2_def)
  qed
  have 2: "\<bar>x\<bar> < pow2 (bitlen m - 1 + 1)"
  proof -
    have "m + 1 \<le> 2 ^ nat (bitlen m)" using b(2) by simp
    then have "of_int (m + 1) \<le> (2::real) ^ nat (bitlen m)"
      by (metis of_int_le_iff of_int_numeral of_int_power)
    with m(3) have "\<bar>x\<bar> < (2::real) ^ nat (bitlen m)" by simp
    with k show ?thesis by (simp add: pow2_def)
  qed
  from 1 2 e show ?thesis by simp
next
  case False
  define y where "y = 1 / \<bar>x\<bar>"
  define m where "m = \<lceil>y\<rceil> - 1"
  have x: "0 < \<bar>x\<bar>" "\<bar>x\<bar> < 1" using assms False by simp_all
  have y: "1 < y" using x by (simp add: y_def)
  have m: "0 < m" "of_int m < y" "y \<le> of_int m + 1"
    using y by (auto simp add: m_def) linarith+
  let ?k = "bitlen m"
  have k: "1 \<le> ?k" using m(1) by (auto simp add: bitlen_alt_def)
  have b: "2 ^ nat (?k - 1) \<le> m" "m < 2 ^ nat ?k"
    using bitlen_bounds [OF m(1)] by simp_all
  have e: "double_exponent x = - ?k"
    using False by (simp add: double_exponent_def m_def y_def)
  have xy: "\<bar>x\<bar> = 1 / y" using x by (simp add: y_def)
  have 1: "pow2 (- ?k) \<le> \<bar>x\<bar>"
  proof -
    have "m + 1 \<le> 2 ^ nat ?k" using b(2) by simp
    then have "of_int (m + 1) \<le> (2::real) ^ nat ?k"
      by (metis of_int_le_iff of_int_numeral of_int_power)
    with m(3) have "y \<le> 2 ^ nat ?k" by linarith
    then have "1 / 2 ^ nat ?k \<le> 1 / y"
      using y by (simp add: frac_le)
    with k show ?thesis by (simp add: pow2_def xy)
  qed
  have 2: "\<bar>x\<bar> < pow2 (- ?k + 1)"
  proof (cases "?k = 1")
    case True
    with x show ?thesis by (simp add: pow2_def)
  next
    case False
    with k have k2: "2 \<le> ?k" by simp
    have "(2::real) ^ nat (?k - 1) \<le> of_int m"
      using b(1) by (metis of_int_le_iff of_int_numeral of_int_power)
    with m(2) have "2 ^ nat (?k - 1) < y" by linarith
    then have "1 / y < 1 / 2 ^ nat (?k - 1)"
      by (simp add: frac_less2)
    moreover have "pow2 (- ?k + 1) = 1 / 2 ^ nat (?k - 1)"
      using k2 by (simp add: pow2_def)
    ultimately show ?thesis by (simp add: xy)
  qed
  from 1 2 e show ?thesis by simp
qed

lemma round_half_even_nearest: "\<bar>x - of_int (round_half_even x)\<bar> \<le> 1 / 2"
  by (simp add: round_half_even_def Let_def)

lemma bitlen_numeral_step: "bitlen (numeral k) = bitlen (numeral k div 2) + 1"
  by (subst compute_bitlen) simp

lemma bitlen_one: "bitlen 1 = 1"
  by (subst compute_bitlen) simp

lemmas double_eval =
  round_double_def double_exponent_def round_half_even_def pow2_def
  bitlen_numeral_step bitlen_one

lemmas kill_defs =
  kill_def open_checkpoint_def is_task_terminal_def TERMINAL_TASK_STATES_def kill_body_def
  write_task_state_def ckpt_write_def double_eval kill_one_def is_process_terminal_def
  TERMINAL_PROCESS_STATES_def kill_process_def get_coordinator_group_def
  get_process_tuple_def collect_all_def scan_process_def scan_coordinator_def scan_pid_def
  truthy_def this_is_really_our_pid_def MAX_START_TIME_DRIFT_def write_process_status_def
  kill_group_def kill_pid_def safe_signal_def ckpt_close_def finalize_task_def Let_def
  kill_runner_def

lemmas example_defs =
  example_world_def example_state_def example_table_def terminal_state_def
  headerless_state_def restarted_state_def

lemma untouched_refl: "untouched w w"
  by (simp add: untouched_def)

lemma untouched_trans: "untouched w w1 \<Longrightarrow> untouched w1 w2 \<Longrightarrow> untouched w w2"
  by (simp add: untouched_def)

lemma clock_time_untouched: "untouched w (snd (clock_time c w))"
  by (cases c) (simp_all add: untouched_def)

lemma collect_all_untouched: "untouched w (collect_all w)"
  by (simp add: untouched_def collect_all_def)

lemma this_is_really_our_pid_untouched:
  "untouched w (snd (this_is_really_our_pid h u t c w))"
  using clock_time_untouched [of w c]
  by (simp add: this_is_really_our_pid_def untouched_refl case_prod_beta Let_def
           split: option.split)

lemma scan_coordinator_untouched: "untouched w (snd (scan_coordinator ps r u w))"
  by (simp add: scan_coordinator_def untouched_refl Let_def case_prod_beta
        this_is_really_our_pid_untouched split: option.split sum.split)

lemma scan_pid_untouched: "untouched w (snd (scan_pid ps r u c w))"
  by (simp add: scan_pid_def untouched_refl Let_def case_prod_beta
        this_is_really_our_pid_untouched split: option.split sum.split)

lemma scan_process_untouched: "untouched w (snd (scan_process st n c ps w))"
proof -
  have a: "untouched w (case ps of None \<Rightarrow> collect_all w | Some x \<Rightarrow> w)" for ps :: "ps_table option"
    by (simp add: collect_all_untouched untouched_refl split: option.split)
  have b: "untouched w (snd (scan_pid ps' r u c (snd (scan_coordinator ps' r u w0))))"
    if "untouched w w0" for ps' r u w0
    by (rule untouched_trans [OF untouched_trans [OF that scan_coordinator_untouched]
                                 scan_pid_untouched])
  have c: "untouched w (snd (scan_coordinator ps' r u w0))"
    if "untouched w w0" for ps' r u w0
    by (rule untouched_trans [OF that scan_coordinator_untouched])
  show ?thesis
    unfolding scan_process_def
    by (simp add: Let_def untouched_refl collect_all_untouched case_prod_beta b c
             split: option.split sum.split)
qed

lemma get_process_tuple_untouched: "untouched w (snd (get_process_tuple st n w))"
  using untouched_trans [OF collect_all_untouched scan_process_untouched]
  by (simp add: get_process_tuple_def untouched_refl Let_def split: option.split)

lemma fold_kill_pid:
  "fold kill_pid tree w = w\<lparr>signals := signals w @ map (\<lambda>c. (c, SIGKILL)) tree\<rparr>"
  by (induction tree arbitrary: w) (simp_all add: kill_pid_def safe_signal_def)

lemma scan_coordinator_truthy:
  "fst (scan_coordinator ps r u w) = Inr c \<Longrightarrow> truthy c = (c \<noteq> None)"
  by (auto simp add: scan_coordinator_def Let_def case_prod_beta truthy_def
        split: option.splits sum.splits if_splits)

lemma scan_pid_truthy:
  "fst (scan_pid ps r u c w) = Inr (p, t) \<Longrightarrow> truthy p = (p \<noteq> None)"
  by (auto simp add: scan_pid_def Let_def case_prod_beta truthy_def
        split: option.splits sum.splits if_splits)

lemma scan_process_truthy:
  "fst (scan_process st n c ps w) = Inr (cp, p, t)
     \<Longrightarrow> truthy cp = (cp \<noteq> None) \<and> truthy p = (p \<noteq> None)"
  unfolding scan_process_def
  by (auto simp add: Let_def case_prod_beta
        split: option.splits sum.splits if_splits
        dest: scan_coordinator_truthy scan_pid_truthy)

lemma get_process_tuple_truthy:
  "fst (get_process_tuple st n w) = Inr (cp, p, t)
     \<Longrightarrow> truthy cp = (cp \<noteq> None) \<and> truthy p = (p \<noteq> None)"
  unfolding get_process_tuple_def
  by (auto simp add: Let_def split: option.splits if_splits dest: scan_process_truthy)

lemma kill_process_eq:
  assumes "map_of (processes st) n = Some h" and "h \<noteq> []"
    and "get_process_tuple st n w = (Inr (cp, p, t), w1)"
  shows "kill_process st n w =
           (Inr (cp \<noteq> None \<or> p \<noteq> None \<or> t \<noteq> []),
            w1\<lparr>signals := signals w
                 @ (if truthy (coordinator_pid (last h))
                    then [(- the (coordinator_pid (last h)), SIGKILL)] else [])
                 @ (case cp of None \<Rightarrow> [] | Some x \<Rightarrow> [(x, SIGKILL)])
                 @ (case p of None \<Rightarrow> [] | Some x \<Rightarrow> [(x, SIGKILL)])
                 @ map (\<lambda>c. (c, SIGKILL)) t\<rparr>)"
proof -
  have tr: "truthy cp = (cp \<noteq> None)" "truthy p = (p \<noteq> None)"
    using get_process_tuple_truthy [of st n w cp p t] assms(3) by simp_all
  have sg: "signals w1 = signals w"
    using get_process_tuple_untouched [of w st n] assms(3) by (simp add: untouched_def)
  show ?thesis
    using assms tr sg
    by (auto simp add: kill_process_def get_coordinator_group_def Let_def fold_kill_pid
          kill_pid_def kill_group_def safe_signal_def)
qed

lemma kill_process_unwritten: "unwritten w (snd (kill_process st n w))"
proof -
  have "unwritten w (snd (get_process_tuple st n w))"
    using get_process_tuple_untouched [of w st n] by (simp add: untouched_def unwritten_def)
  then show ?thesis
    by (simp add: kill_process_def Let_def case_prod_beta fold_kill_pid kill_pid_def
          kill_group_def safe_signal_def unwritten_def split: sum.split)
qed

lemma clock_time_unwritten: "unwritten w (snd (clock_time c w))"
  using clock_time_untouched [of w c] by (simp add: untouched_def unwritten_def)

lemma ex_map_single:
  "(\<exists>recs. [Process_status x] = map Process_status recs \<and> P recs) \<longleftrightarrow> P [x]"
  by (auto simp add: Cons_eq_map_conv)

lemma kill_one_log:
  "\<exists>recs. ckpt_log (snd (kill_one st c (n, h) w)) = ckpt_log w @ map Process_status recs
      \<and> (recs = [] \<or> (\<exists>r. recs = [r] \<and> appended_ok n h r))"
proof -
  have a: "ckpt_log (snd (kill_process st n w)) = ckpt_log w"
    using kill_process_unwritten [of w st n] by (simp add: unwritten_def)
  have b: "ckpt_log (snd (clock_time c (snd (kill_process st n w)))) = ckpt_log w"
    using clock_time_unwritten [of "snd (kill_process st n w)" c] a
    by (simp add: unwritten_def)
  show ?thesis
    by (simp add: kill_one_def Let_def case_prod_beta a b write_process_status_def
          ckpt_write_def appended_ok_def ex_map_single split: sum.split)
qed

lemma kill_processes_log:
  "\<exists>recs. ckpt_log (snd (kill_processes st c items w)) = ckpt_log w @ map Process_status recs
      \<and> (\<forall>r\<in>set recs. \<exists>h. (process r, h) \<in> set items \<and> appended_ok (process r) h r)
      \<and> (distinct (map fst items) \<longrightarrow> distinct (map process recs))"
proof (induction items arbitrary: w)
  case Nil
  show ?case by simp
next
  case (Cons item items)
  obtain n h where item: "item = (n, h)" by (cases item)
  let ?w1 = "snd (kill_one st c (n, h) w)"
  obtain r1 where r1: "ckpt_log ?w1 = ckpt_log w @ map Process_status r1"
      "r1 = [] \<or> (\<exists>r. r1 = [r] \<and> appended_ok n h r)"
    using kill_one_log [of st c n h w] by blast
  have ok1: "\<forall>r\<in>set r1. \<exists>h. (process r, h) \<in> set (item # items) \<and> appended_ok (process r) h r"
    using r1(2) by (auto simp add: item appended_ok_def)
  have names1: "\<forall>r\<in>set r1. process r = n" and dist1: "distinct (map process r1)"
    using r1(2) by (auto simp add: appended_ok_def)
  show ?case
  proof (cases "fst (kill_one st c (n, h) w)")
    case (Inl e)
    then have "kill_processes st c (item # items) w = (Inl e, ?w1)"
      by (simp add: item case_prod_beta)
    then have "ckpt_log (snd (kill_processes st c (item # items) w))
                 = ckpt_log w @ map Process_status r1"
      using r1(1) by simp
    with ok1 dist1 show ?thesis by blast
  next
    case (Inr u)
    then have eq: "kill_processes st c (item # items) w = kill_processes st c items ?w1"
      by (simp add: item case_prod_beta)
    obtain r2 where r2:
      "ckpt_log (snd (kill_processes st c items ?w1)) = ckpt_log ?w1 @ map Process_status r2"
      "\<forall>r\<in>set r2. \<exists>h. (process r, h) \<in> set items \<and> appended_ok (process r) h r"
      "distinct (map fst items) \<longrightarrow> distinct (map process r2)"
      using Cons.IH [of ?w1] by blast
    have names2: "\<forall>r\<in>set r2. process r \<in> fst ` set items"
      using r2(2) by force
    have log: "ckpt_log (snd (kill_processes st c (item # items) w))
                 = ckpt_log w @ map Process_status (r1 @ r2)"
      using eq r1(1) r2(1) by simp
    have ok: "\<forall>r\<in>set (r1 @ r2).
                \<exists>h. (process r, h) \<in> set (item # items) \<and> appended_ok (process r) h r"
      using ok1 r2(2) by auto
    have dist: "distinct (map fst (item # items)) \<longrightarrow> distinct (map process (r1 @ r2))"
      using names1 dist1 names2 r2(3) by (fastforce simp add: item)
    show ?thesis using log ok dist by blast
  qed
qed

lemma kill_runner_unwritten: "unwritten w (snd (kill_runner st w))"
  by (simp add: kill_runner_def unwritten_def Let_def
        split: option.split kill_outcome.split)

lemma open_checkpoint_log:
  "ckpt_log (snd (open_checkpoint f st w)) = ckpt_log w
   \<and> active_task (snd (open_checkpoint f st w)) = active_task w
   \<and> finished_task (snd (open_checkpoint f st w)) = finished_task w
   \<and> from_file (snd (open_checkpoint f st w)) = from_file w"
proof -
  have k: "ckpt_log (snd (kill_runner s w)) = ckpt_log w"
     "active_task (snd (kill_runner s w)) = active_task w"
     "finished_task (snd (kill_runner s w)) = finished_task w"
     "from_file (snd (kill_runner s w)) = from_file w" for s
    using kill_runner_unwritten [of w s] by (simp_all add: unwritten_def)
  show ?thesis
    by (simp add: open_checkpoint_def Let_def case_prod_beta k
          split: sum.split option.split)
qed

lemma write_task_state_log:
  "(fst (write_task_state c s w) = Inr ()
      \<and> (\<exists>a. ckpt_log (snd (write_task_state c s w)) = ckpt_log w @ [Task_status a]
              \<and> tstate a = s))
   \<or> ((\<exists>e. fst (write_task_state c s w) = Inl e)
      \<and> ckpt_log (snd (write_task_state c s w)) = ckpt_log w)"
  using clock_time_unwritten [of w c]
  by (simp add: write_task_state_def case_prod_beta ckpt_write_def unwritten_def
        split: sum.split)

lemma finalize_task_log: "ckpt_log (snd (finalize_task w)) = ckpt_log w"
  by (simp add: finalize_task_def Let_def)

lemma kill_body_log:
  "\<exists>recs. ckpt_log (snd (kill_body st ts c w)) = ckpt_log w @ recs
     \<and> (recs = [] \<or> kill_appended st recs)"
proof (cases "fst (write_task_state c T_ACTIVE w)")
  case (Inl e)
  then have "kill_body st ts c w = (Inl e, snd (write_task_state c T_ACTIVE w))"
    by (simp add: kill_body_def case_prod_beta)
  moreover have "ckpt_log (snd (write_task_state c T_ACTIVE w)) = ckpt_log w"
    using write_task_state_log [of c T_ACTIVE w] Inl by auto
  ultimately show ?thesis by simp
next
  case (Inr u)
  let ?w0 = "snd (write_task_state c T_ACTIVE w)"
  let ?k = "kill_processes st c (processes st) ?w0"
  obtain a where a: "ckpt_log ?w0 = ckpt_log w @ [Task_status a]" "tstate a = T_ACTIVE"
    using write_task_state_log [of c T_ACTIVE w] Inr by auto
  obtain rs where rs: "ckpt_log (snd ?k) = ckpt_log ?w0 @ map Process_status rs"
      "\<forall>r\<in>set rs. \<exists>h. (process r, h) \<in> set (processes st) \<and> appended_ok (process r) h r"
      "distinct (map fst (processes st)) \<longrightarrow> distinct (map process rs)"
    using kill_processes_log [of st c "processes st" ?w0] by blast
  have body: "kill_body st ts c w =
                (case ?k of (Inl e, w1) \<Rightarrow> (Inl e, w1)
                          | (Inr x, w1) \<Rightarrow> write_task_state c ts w1)"
    using Inr by (simp add: kill_body_def case_prod_beta)
  have stop: "ckpt_log (snd (kill_body st ts c w))
                = ckpt_log w @ (Task_status a # map Process_status rs @ map Task_status tl)"
    if "ckpt_log (snd (kill_body st ts c w)) = ckpt_log (snd ?k) @ map Task_status tl" for tl
    using that a rs by simp
  have app: "kill_appended st (Task_status a # map Process_status rs @ map Task_status tl)"
    if "length tl \<le> 1" for tl
    unfolding kill_appended_def using a(2) rs(2,3) that
    by (intro exI [of _ a] exI [of _ rs] exI [of _ tl]) simp
  have "\<exists>tl. length tl \<le> 1
          \<and> ckpt_log (snd (kill_body st ts c w)) = ckpt_log (snd ?k) @ map Task_status tl"
  proof (cases "fst ?k")
    case (Inl e)
    then have "kill_body st ts c w = (Inl e, snd ?k)"
      by (simp add: body case_prod_beta)
    then show ?thesis by (intro exI [of _ "[]"]) simp
  next
    case (Inr v)
    then have eq: "kill_body st ts c w = write_task_state c ts (snd ?k)"
      by (simp add: body case_prod_beta)
    from write_task_state_log [of c ts "snd ?k"] show ?thesis
    proof (elim disjE conjE exE)
      fix t assume "ckpt_log (snd (write_task_state c ts (snd ?k)))
                      = ckpt_log (snd ?k) @ [Task_status t]"
      then show ?thesis by (intro exI [of _ "[t]"]) (simp add: eq)
    next
      assume "ckpt_log (snd (write_task_state c ts (snd ?k))) = ckpt_log (snd ?k)"
      then show ?thesis by (intro exI [of _ "[]"]) (simp add: eq)
    qed
  qed
  then obtain tl where tl: "length tl \<le> 1"
      "ckpt_log (snd (kill_body st ts c w)) = ckpt_log (snd ?k) @ map Task_status tl"
    by blast
  from stop [OF tl(2)] app [OF tl(1)] show ?thesis by blast
qed

lemma kill_log:
  assumes "from_file w (ckpt_log w) = Some st"
  shows "\<exists>recs. ckpt_log (snd (kill f ts c w)) = ckpt_log w @ recs
           \<and> (recs = [] \<or> kill_appended st recs)"
proof -
  let ?w1 = "snd (open_checkpoint f (Some st) w)"
  have o: "ckpt_log ?w1 = ckpt_log w"
    using open_checkpoint_log [of f "Some st" w] by simp
  obtain recs where recs: "ckpt_log (snd (kill_body st ts c ?w1)) = ckpt_log w @ recs"
      "recs = [] \<or> kill_appended st recs"
    using kill_body_log [of st ts c ?w1] o by auto
  have "ckpt_log (snd (kill f ts c w)) = ckpt_log w
        \<or> ckpt_log (snd (kill f ts c w)) = ckpt_log (snd (kill_body st ts c ?w1))"
    using assms o
    by (simp add: kill_def Let_def case_prod_beta finalize_task_log ckpt_close_def
          split: sum.split)
  with recs show ?thesis by auto
qed

lemma kill_appended_records:
  assumes "kill_appended st recs"
  shows "\<exists>rs. (\<forall>r. Process_status r \<in> set recs \<longleftrightarrow> r \<in> set rs)
           \<and> [r. Process_status r \<leftarrow> recs] = rs
           \<and> (\<forall>r\<in>set rs. \<exists>h. (process r, h) \<in> set (processes st) \<and> appended_ok (process r) h r)
           \<and> (distinct (map fst (processes st)) \<longrightarrow> distinct (map process rs))"
proof -
  obtain a rs tl where r: "recs = Task_status a # map Process_status rs @ map Task_status tl"
    "\<forall>r\<in>set rs. \<exists>h. (process r, h) \<in> set (processes st) \<and> appended_ok (process r) h r"
    "distinct (map fst (processes st)) \<longrightarrow> distinct (map process rs)"
    using assms unfolding kill_appended_def by blast
  have 1: "\<forall>r. Process_status r \<in> set recs \<longleftrightarrow> r \<in> set rs"
    by (auto simp add: r(1))
  have 2: "[r. Process_status r \<leftarrow> recs] = rs"
    by (simp add: r(1) comp_def)
  show ?thesis using 1 2 r(2,3) by blast
qed

lemma kill_records:
  assumes "from_file w (ckpt_log w) = Some st" and "distinct (map fst (processes st))"
  shows "\<exists>recs. ckpt_log (snd (kill force terminal_status clock w)) = ckpt_log w @ recs
           \<and> (\<forall>r. Process_status r \<in> set recs \<longrightarrow>
                 (\<exists>h. map_of (processes st) (process r) = Some h \<and> appended_ok (process r) h r))
           \<and> distinct (map process [r. Process_status r \<leftarrow> recs])"
proof -
  obtain recs where recs:
    "ckpt_log (snd (kill force terminal_status clock w)) = ckpt_log w @ recs"
    "recs = [] \<or> kill_appended st recs"
    using kill_log [OF assms(1)] by blast
  show ?thesis
  proof (cases "recs = []")
    case True
    with recs(1) show ?thesis by simp
  next
    case False
    with recs(2) have "kill_appended st recs" by simp
    then obtain rs where rs: "\<forall>r. Process_status r \<in> set recs \<longleftrightarrow> r \<in> set rs"
        "[r. Process_status r \<leftarrow> recs] = rs"
        "\<forall>r\<in>set rs. \<exists>h. (process r, h) \<in> set (processes st) \<and> appended_ok (process r) h r"
        "distinct (map fst (processes st)) \<longrightarrow> distinct (map process rs)"
      using kill_appended_records [of st recs] by blast
    have a: "\<exists>h. map_of (processes st) (process r) = Some h \<and> appended_ok (process r) h r"
      if "Process_status r \<in> set recs" for r
    proof -
      from that rs(1) have "r \<in> set rs" by simp
      with rs(3) obtain h where h: "(process r, h) \<in> set (processes st)"
          "appended_ok (process r) h r" by blast
      from map_of_is_SomeI [OF assms(2) h(1)] h(2) show ?thesis by blast
    qed
    have b: "distinct (map process [r. Process_status r \<leftarrow> recs])"
      using rs(2) rs(4) assms(2) by simp
    from recs(1) a b show ?thesis by blast
  qed
qed

lemma kill_one_lost:
  "if history \<noteq> [] \<and> \<not> is_process_terminal (pstate (last history))
      \<and> pstate (last history) \<noteq> P_WAITING
      \<and> fst (kill_process st name w) = Inr False
   then ckpt_log (snd (kill_one st clock (name, history) w))
          = ckpt_log w @
            [Process_status
               \<lparr>process = name, pstate = P_LOST, seq = seq (last history) + 1,
                fork_time = None, coordinator_pid = None, start_time = None,
                pid = None, stop_time = None, return_code = None\<rparr>]
   else (\<exists>recs. ckpt_log (snd (kill_one st clock (name, history) w)) = ckpt_log w @ recs
           \<and> (\<forall>r. Process_status r \<in> set recs \<longrightarrow> pstate r \<noteq> P_LOST))"
proof -
  have a: "ckpt_log (snd (kill_process st name w)) = ckpt_log w"
    using kill_process_unwritten [of w st name] by (simp add: unwritten_def)
  have b: "ckpt_log (snd (clock_time clock (snd (kill_process st name w)))) = ckpt_log w"
    using clock_time_unwritten [of "snd (kill_process st name w)" clock] a
    by (simp add: unwritten_def)
  show ?thesis
    by (auto simp add: kill_one_def Let_def case_prod_beta a b write_process_status_def
          ckpt_write_def split: sum.split)
qed

lemma sorted_wrt_less_last:
  "sorted_wrt (<) (xs :: int list) \<Longrightarrow> x \<in> set xs \<Longrightarrow> x \<le> last xs"
  by (induction xs) (auto simp add: less_imp_le)

lemma seq_extends:
  assumes "h \<noteq> []" and "seq r = seq (last h) + 1" and "sorted_wrt (<) (map seq h)"
  shows "sorted_wrt (<) (map seq (h @ [r]))"
proof -
  have "x \<le> seq (last h)" if "x \<in> set (map seq h)" for x
    using sorted_wrt_less_last [OF assms(3) that] assms(1) by (simp add: last_map)
  then show ?thesis
    using assms by (force simp add: sorted_wrt_append)
qed

lemma kill_terminal_eq:
  assumes "from_file w (ckpt_log w) = Some st" and "header st \<noteq> None"
    and "statuses st = Some sts" and "sts \<noteq> []" and "is_task_terminal (tstate (last sts))"
    and "terminal_status \<in> {T_KILLED, T_LOST}"
  shows "kill force terminal_status clock w =
           (case open_checkpoint force (Some st) w of
              (Inl e, w1) \<Rightarrow> (Inl e, w1)
            | (Inr u, w1) \<Rightarrow> finalize_task w1)"
  using assms by (auto simp add: kill_def Let_def split: prod.split sum.split)

lemma kill_terminal_fields:
  assumes "from_file w (ckpt_log w) = Some st" and "header st \<noteq> None"
    and "statuses st = Some sts" and "sts \<noteq> []" and "is_task_terminal (tstate (last sts))"
    and "terminal_status \<in> {T_KILLED, T_LOST}"
  shows "ckpt_log (snd (kill force terminal_status clock w)) = ckpt_log w"
    and "from_file (snd (kill force terminal_status clock w)) = from_file w"
    and "fst (kill force terminal_status clock w) = Inr () \<longleftrightarrow>
           fst (open_checkpoint force (Some st) w) = Inr ()
           \<and> active_task w \<noteq> None \<and> finished_task w = None"
    and "fst (kill force terminal_status clock w) = Inr () \<longrightarrow>
           active_task (snd (kill force terminal_status clock w)) = None"
    and "fst (open_checkpoint force (Some st) w) = Inr ()
           \<and> (active_task w = None \<or> finished_task w \<noteq> None) \<longrightarrow>
         fst (kill force terminal_status clock w) = Inl AssertionError"
  using open_checkpoint_log [of force "Some st" w]
  unfolding kill_terminal_eq [OF assms]
  by (auto simp add: case_prod_beta finalize_task_def Let_def split: sum.split)

lemma kill_headerless_eq:
  assumes "from_file w (ckpt_log w) = Some st" and "header st = None"
    and "terminal_status \<in> {T_KILLED, T_LOST}"
  shows "kill force terminal_status clock w = open_checkpoint force (Some st) w"
  using assms by (auto simp add: kill_def Let_def split: prod.split sum.split)

lemma scan_pid_error_indep:
  "map_sum id (\<lambda>_. ()) (fst (scan_pid ps r u c1 w1))
     = map_sum id (\<lambda>_. ()) (fst (scan_pid ps r u c2 w2))"
  by (simp add: scan_pid_def this_is_really_our_pid_def Let_def case_prod_beta
        split: option.split)

lemma scan_process_coordinator_indep:
  "map_sum id fst (fst (scan_process st name c1 ps w))
     = map_sum id fst (fst (scan_process st name c2 ps w))"
proof -
  have b: "fst (case scan_pid ps' r u c w1 of (Inl e, w2) \<Rightarrow> (Inl e, w2)
                  | (Inr (p, t), w2) \<Rightarrow> (Inr (cp, p, t), w2))
         = (case fst (scan_pid ps' r u c w1) of Inl e \<Rightarrow> Inl e | Inr (p, t) \<Rightarrow> Inr (cp, p, t))"
    for ps' r u c w1 cp
    by (simp add: case_prod_beta split: sum.split)
  have c: "map_sum id fst (fst (case scan_pid ps' r u c1 w1 of (Inl e, w2) \<Rightarrow> (Inl e, w2)
                  | (Inr (p, t), w2) \<Rightarrow> (Inr (cp, p, t), w2)))
         = map_sum id fst (fst (case scan_pid ps' r u c2 w1 of (Inl e, w2) \<Rightarrow> (Inl e, w2)
                  | (Inr (p, t), w2) \<Rightarrow> (Inr (cp, p, t), w2)))"
    for ps' r u w1 cp
  proof -
    have "map_sum id (\<lambda>_. ()) (fst (scan_pid ps' r u c1 w1))
            = map_sum id (\<lambda>_. ()) (fst (scan_pid ps' r u c2 w1))"
      by (rule scan_pid_error_indep)
    then show ?thesis
      unfolding b
      by (cases "fst (scan_pid ps' r u c1 w1)"; cases "fst (scan_pid ps' r u c2 w1)") auto
  qed
  show ?thesis
    unfolding scan_process_def
    by (simp add: Let_def c split: option.split sum.split prod.split)
qed

lemma scan_process_coordinator_sys_clock:
  assumes "map_of (processes st) name = Some history" and "history \<noteq> []"
    and "header st = Some hdr"
    and "coordinator_pid (last history) = Some cp" and "cp \<noteq> 0"
    and "handles (case ps of None \<Rightarrow> ps_snapshots w (ps_collects w) | Some table \<Rightarrow> table) cp
           = Some handle"
    and "h_user handle = user hdr" and "fork_time (last history) = Some t"
    and "fst (scan_process st name clock ps w) = Inr (coordinator, main, tree)"
  shows "coordinator
           = (if dge (dabs (dsub t (dsub (sys_clock w (sys_reads w)) (h_wall_time handle)))) 10
              then None else Some cp)"
  using assms
  by (auto simp add: scan_process_def scan_coordinator_def this_is_really_our_pid_def
        MAX_START_TIME_DRIFT_def truthy_def collect_all_def Let_def case_prod_beta
        split: option.splits sum.splits if_splits)

subsection \<open>Pid ownership\<close>

text \<open>
  Claim C3, as the code has it. The ownership check answers true exactly when the owner
  of the handle is the expected owner and the drift
  \<^verbatim>\<open>abs(start_time - (clock.time() - wall_time))\<close>, computed as Python computes it
  (each subtraction rounded to the nearest float), is not \<^verbatim>\<open>>= 10\<close>; a different
  owner gives false whatever the times are, also when no start time is recorded. Where
  the values are finite and neither subtraction rounds, that is: the owner is the expected
  one and the exact drift is less than ten seconds.
\<close>

theorem this_is_really_our_pid_verdict:
  "fst (this_is_really_our_pid h u (Some t) clock w)
     = Inr (h_user h = u
            \<and> \<not> dge (dabs (dsub t (dsub (fst (clock_time clock w)) (h_wall_time h)))) 10)
   \<and> (h_user h \<noteq> u \<longrightarrow> fst (this_is_really_our_pid h u t' clock w) = Inr False)
   \<and> (fst (clock_time clock w) = Finite now \<and> h_wall_time h = Finite wall \<and> t = Finite start
      \<and> round_double (now - wall) = Finite (now - wall)
      \<and> round_double (start - (now - wall)) = Finite (start - (now - wall))
      \<longrightarrow> fst (this_is_really_our_pid h u (Some t) clock w)
            = Inr (h_user h = u \<and> \<bar>start - (now - wall)\<bar> < 10))"
  by (auto simp add: this_is_really_our_pid_def MAX_START_TIME_DRIFT_def case_prod_beta)

theorem this_is_really_our_pid_verdict_witness:
  "fst (clock_time (Injected (\<lambda>_. Finite 1005)) (example_world None)) = Finite 1005
   \<and> round_double (1005 - 5) = Finite (1005 - 5)
   \<and> round_double (1000 - (1005 - 5)) = Finite (1000 - (1005 - 5))
   \<and> fst (this_is_really_our_pid \<lparr>h_pid = 42, h_user = ''alice'', h_wall_time = Finite 5\<rparr>
            ''alice'' (Some (Finite 1000)) (Injected (\<lambda>_. Finite 1005)) (example_world None))
       = Inr True
   \<and> fst (this_is_really_our_pid \<lparr>h_pid = 42, h_user = ''alice'', h_wall_time = Finite 50\<rparr>
            ''alice'' (Some (Finite 1000)) (Injected (\<lambda>_. Finite 1005)) (example_world None))
       = Inr False
   \<and> ''bob'' \<noteq> ''alice''
   \<and> fst (this_is_really_our_pid \<lparr>h_pid = 42, h_user = ''bob'', h_wall_time = Finite 5\<rparr>
            ''alice'' None SystemTime (example_world None)) = Inr False"
  using this_is_really_our_pid_verdict
          [of "\<lparr>h_pid = 42, h_user = ''alice'', h_wall_time = Finite 5\<rparr>" "''alice''"
              "Finite 1000" "Injected (\<lambda>_. Finite 1005)" "example_world None" None
              1005 5 1000]
        this_is_really_our_pid_verdict
          [of "\<lparr>h_pid = 42, h_user = ''alice'', h_wall_time = Finite 50\<rparr>" "''alice''"
              "Finite 1000" "Injected (\<lambda>_. Finite 1005)" "example_world None" None
              1005 50 1000]
        this_is_really_our_pid_verdict
          [of "\<lparr>h_pid = 42, h_user = ''bob'', h_wall_time = Finite 5\<rparr>" "''alice''"
              "Finite 1000" SystemTime "example_world None" None 1005 5 1000]
  by (simp add: example_world_def double_eval)

text \<open>
  With exact arithmetic the claim fails: here the owner is the expected one and the exact
  drift is \<open>10 - 2\<^sup>-\<^sup>3\<^sup>0\<close>, but \<^verbatim>\<open>clock.time() - wall_time\<close> rounds to
  1700000000, the drift is computed as 10, and the check answers false.
\<close>

theorem this_is_really_our_pid_verdict_counterexample:
  "h_user \<lparr>h_pid = 42, h_user = ''alice'', h_wall_time = Finite (5368709121 / 1073741824)\<rparr>
     = ''alice''
   \<and> \<bar>1699999990 - (1700000005 - 5368709121 / 1073741824)\<bar> < (10 :: real)
   \<and> fst (this_is_really_our_pid
            \<lparr>h_pid = 42, h_user = ''alice'', h_wall_time = Finite (5368709121 / 1073741824)\<rparr>
            ''alice'' (Some (Finite 1699999990)) (Injected (\<lambda>_. Finite 1700000005))
            (example_world None))
       = Inr False"
  by (simp add: this_is_really_our_pid_def MAX_START_TIME_DRIFT_def example_world_def
        double_eval)

subsection \<open>Scanning the process table\<close>

text \<open>
  Claim C10. In \<^verbatim>\<open>scan_process\<close> the clock argument does not reach the check
  of the coordinator: two runs that differ only in the clock argument raise the same
  exception or return the same coordinator pid, and whenever the scan returns, the verdict
  on a recorded coordinator that is in the table and owned by the task's user is taken
  from the next reading of the system clock (in float arithmetic). The check of the process
  itself does use the
  clock argument: in the example, the injected clock decides whether pid 4242 is kept.
\<close>

theorem scan_process_clock:
  "map_sum id fst (fst (scan_process st name c1 ps w))
     = map_sum id fst (fst (scan_process st name c2 ps w))
   \<and> (map_of (processes st) name = Some history \<and> history \<noteq> [] \<and> header st = Some hdr
      \<and> coordinator_pid (last history) = Some cp \<and> cp \<noteq> 0
      \<and> handles (case ps of None \<Rightarrow> ps_snapshots w (ps_collects w) | Some table \<Rightarrow> table) cp
           = Some handle
      \<and> h_user handle = user hdr \<and> fork_time (last history) = Some t
      \<and> fst (scan_process st name clock ps w) = Inr (coordinator, main, tree)
      \<longrightarrow> coordinator
           = (if dge (dabs (dsub t (dsub (sys_clock w (sys_reads w)) (h_wall_time handle)))) 10
              then None else Some cp))
   \<and> fst (scan_process example_state ''runner'' (Injected (\<lambda>_. Finite 1005)) (Some example_table)
            (example_world (Some example_state)))
       = Inr (Some 4241, Some 4242, [4243])
   \<and> fst (scan_process example_state ''runner'' (Injected (\<lambda>_. Finite 2000)) (Some example_table)
            (example_world (Some example_state)))
       = Inr (Some 4241, None, [])"
proof (intro conjI impI)
  show "map_sum id fst (fst (scan_process st name c1 ps w))
          = map_sum id fst (fst (scan_process st name c2 ps w))"
    by (rule scan_process_coordinator_indep)
next
  assume "map_of (processes st) name = Some history \<and> history \<noteq> [] \<and> header st = Some hdr
      \<and> coordinator_pid (last history) = Some cp \<and> cp \<noteq> 0
      \<and> handles (case ps of None \<Rightarrow> ps_snapshots w (ps_collects w) | Some table \<Rightarrow> table) cp
           = Some handle
      \<and> h_user handle = user hdr \<and> fork_time (last history) = Some t
      \<and> fst (scan_process st name clock ps w) = Inr (coordinator, main, tree)"
  then show "coordinator
           = (if dge (dabs (dsub t (dsub (sys_clock w (sys_reads w)) (h_wall_time handle)))) 10
              then None else Some cp)"
    by (elim conjE) (rule scan_process_coordinator_sys_clock; assumption)
next
  show "fst (scan_process example_state ''runner'' (Injected (\<lambda>_. Finite 1005)) (Some example_table)
            (example_world (Some example_state)))
       = Inr (Some 4241, Some 4242, [4243])"
    by (simp add: kill_defs example_defs)
next
  show "fst (scan_process example_state ''runner'' (Injected (\<lambda>_. Finite 2000)) (Some example_table)
            (example_world (Some example_state)))
       = Inr (Some 4241, None, [])"
    by (simp add: kill_defs example_defs)
qed

theorem scan_process_clock_witness:
  "map_of (processes example_state) ''runner''
     = Some (the (map_of (processes example_state) ''runner''))
   \<and> the (map_of (processes example_state) ''runner'') \<noteq> []
   \<and> header example_state = Some \<lparr>user = ''alice''\<rparr>
   \<and> coordinator_pid (last (the (map_of (processes example_state) ''runner''))) = Some 4241
   \<and> (4241 :: int) \<noteq> 0
   \<and> handles example_table 4241 = Some \<lparr>h_pid = 4241, h_user = ''alice'', h_wall_time = Finite 6\<rparr>
   \<and> fork_time (last (the (map_of (processes example_state) ''runner''))) = Some (Finite 999)
   \<and> fst (scan_process example_state ''runner'' SystemTime (Some example_table)
            ((example_world (Some example_state))\<lparr>sys_clock := (\<lambda>_. Finite 5000)\<rparr>))
       = Inr (None, None, [])
   \<and> (None :: int option)
       = (if dge (dabs (dsub (Finite 999) (dsub (Finite 5000) (Finite 6)))) 10 then None
          else Some 4241)
   \<and> map_sum id fst (fst (scan_process example_state ''runner'' SystemTime (Some example_table)
                             ((example_world (Some example_state))\<lparr>sys_clock := (\<lambda>_. Finite 5000)\<rparr>)))
       = map_sum id fst (fst (scan_process example_state ''runner'' (Injected (\<lambda>_. Finite 1005))
                             (Some example_table)
                             ((example_world (Some example_state))\<lparr>sys_clock := (\<lambda>_. Finite 5000)\<rparr>)))"
  using scan_process_clock
          [of example_state "''runner''" SystemTime "Some example_table"
              "(example_world (Some example_state))\<lparr>sys_clock := (\<lambda>_. Finite 5000)\<rparr>"
              "Injected (\<lambda>_. Finite 1005)"
              "the (map_of (processes example_state) ''runner'')" "\<lparr>user = ''alice''\<rparr>" 4241
              "\<lparr>h_pid = 4241, h_user = ''alice'', h_wall_time = Finite 6\<rparr>" "Finite 999"
              SystemTime
              None None "[]"]
  by (simp add: kill_defs example_defs)

subsection \<open>Signals\<close>

text \<open>
  Claim C6, as the code has it. Let the scan of \<^verbatim>\<open>kill_process\<close> return the
  confirmed coordinator, the confirmed process and its descendants. Then
  \<^verbatim>\<open>kill_process\<close> sends \<^verbatim>\<open>SIGKILL\<close>, in this order, to the process group
  of the coordinator pid that the latest status of the process records, when it records
  one other than 0 (confirmed or not; a coordinator pid that only an earlier status of the
  history records is not signalled), to the confirmed coordinator, to the confirmed
  process, and to each descendant; it answers whether anything was confirmed. When
  something was, and the latest state of the process is not terminal, the loop of
  \<^verbatim>\<open>kill\<close> appends exactly one record for the process: state \<^verbatim>\<open>KILLED\<close>,
  return code -9, the sequence number of the latest status plus one, and as stop time the
  reading of the clock taken after the signals.
\<close>

theorem kill_process_signal_order:
  assumes "map_of (processes st) name = Some history" and "history \<noteq> []"
    and "get_process_tuple st name w = (Inr (coordinator, main, tree), w1)"
  shows
    "(let wk = w1\<lparr>signals := signals w
                 @ (if truthy (coordinator_pid (last history))
                    then [(- the (coordinator_pid (last history)), SIGKILL)] else [])
                 @ (case coordinator of None \<Rightarrow> [] | Some c \<Rightarrow> [(c, SIGKILL)])
                 @ (case main of None \<Rightarrow> [] | Some p \<Rightarrow> [(p, SIGKILL)])
                 @ map (\<lambda>child. (child, SIGKILL)) tree\<rparr>
      in kill_process st name w
           = (Inr (coordinator \<noteq> None \<or> main \<noteq> None \<or> tree \<noteq> []), wk)
         \<and> (\<not> is_process_terminal (pstate (last history))
              \<and> (coordinator \<noteq> None \<or> main \<noteq> None \<or> tree \<noteq> []) \<longrightarrow>
             kill_one st clock (name, history) w
               = (Inr (),
                  (snd (clock_time clock wk))
                    \<lparr>ckpt_log := ckpt_log w @
                       [Process_status
                          \<lparr>process = name, pstate = P_KILLED, seq = seq (last history) + 1,
                           fork_time = None, coordinator_pid = None, start_time = None,
                           pid = None, stop_time = Some (fst (clock_time clock wk)),
                           return_code = Some (- 9)\<rparr>]\<rparr>)))"
proof -
  have lg: "ckpt_log w1 = ckpt_log w"
    using get_process_tuple_untouched [of w st name] assms(3) by (simp add: untouched_def)
  have lg2: "ckpt_log (snd (clock_time clock w')) = ckpt_log w'" for w'
    using clock_time_unwritten [of w' clock] by (simp add: unwritten_def)
  show ?thesis
    using kill_process_eq [OF assms] lg assms(2)
    by (simp add: Let_def kill_one_def case_prod_beta write_process_status_def ckpt_write_def lg2)
qed

theorem kill_process_signal_order_witness:
  "map_of (processes example_state) ''runner''
     = Some (the (map_of (processes example_state) ''runner''))
   \<and> the (map_of (processes example_state) ''runner'') \<noteq> []
   \<and> get_process_tuple example_state ''runner'' (example_world (Some example_state))
       = (Inr (Some 4241, Some 4242, [4243]),
          (example_world (Some example_state))
            \<lparr>sys_reads := 2, ps_collects := 1, ps_cur := example_table\<rparr>)
   \<and> signals (snd (kill_process example_state ''runner'' (example_world (Some example_state))))
       = [(- 4241, SIGKILL), (4241, SIGKILL), (4242, SIGKILL), (4243, SIGKILL)]
   \<and> fst (kill_process example_state ''runner'' (example_world (Some example_state))) = Inr True
   \<and> ckpt_log (snd (kill_one example_state SystemTime
                        (''runner'', the (map_of (processes example_state) ''runner''))
                        (example_world (Some example_state))))
       = [Process_status
            \<lparr>process = ''runner'', pstate = P_KILLED, seq = 3, fork_time = None,
             coordinator_pid = None, start_time = None, pid = None, stop_time = Some (Finite 1005),
             return_code = Some (- 9)\<rparr>]"
  using kill_process_signal_order
          [where st = example_state and name = "''runner''"
             and history = "the (map_of (processes example_state) ''runner'')"
             and w = "example_world (Some example_state)"
             and coordinator = "Some 4241" and main = "Some 4242" and tree = "[4243]"
             and ?w1.0 = "(example_world (Some example_state))
                        \<lparr>sys_reads := 2, ps_collects := 1, ps_cur := example_table\<rparr>"
             and clock = SystemTime]
  by (simp add: kill_defs example_defs)

text \<open>
  A coordinator pid recorded in the checkpoint, but not in the latest status, gets no
  group kill: in \<open>restarted_state\<close> the first run recorded coordinator 4241, the
  process is found alive, and only the process and its child are signalled.
\<close>

theorem kill_process_signal_order_counterexample:
  "coordinator_pid (hd (the (map_of (processes restarted_state) ''runner''))) = Some 4241
   \<and> fst (kill_process restarted_state ''runner'' (example_world (Some restarted_state)))
       = Inr True
   \<and> signals (snd (kill_process restarted_state ''runner''
                     (example_world (Some restarted_state))))
       = [(4242, SIGKILL), (4243, SIGKILL)]"
  by (simp add: kill_defs example_defs)

subsection \<open>The checkpoint lock\<close>

text \<open>
  Claim C7. In a forced takeover (the lock could not be taken without blocking),
  \<^verbatim>\<open>kill_runner\<close> signals the runner pid of the latest task status. When
  \<^verbatim>\<open>os.kill\<close> fails with \<^verbatim>\<open>ESRCH\<close>, \<^verbatim>\<open>kill_runner\<close> answers
  true and \<^verbatim>\<open>open_checkpoint\<close> goes on to the blocking \<^verbatim>\<open>lock_file\<close>;
  once that returns the file, the writer is returned without error. When
  \<^verbatim>\<open>os.kill\<close> fails with \<^verbatim>\<open>EPERM\<close>, \<^verbatim>\<open>kill_runner\<close> answers
  false and \<^verbatim>\<open>open_checkpoint\<close> raises \<^verbatim>\<open>PermissionError\<close>.
\<close>

theorem forced_takeover:
  assumes "lock_nonblocking w \<noteq> Lock_Fp"
    and "statuses st = Some sts" and "sts \<noteq> []" and "runner_pid (last sts) \<noteq> getpid w"
  shows "(kill_result w (runner_pid (last sts)) SIGKILL = Fails ESRCH \<longrightarrow>
            kill_runner (Some st) w
              = (Inr True, w\<lparr>signals := signals w @ [(runner_pid (last sts), SIGKILL)]\<rparr>)
            \<and> (lock_blocking w = Some Lock_Fp \<longrightarrow>
                 open_checkpoint True (Some st) w
                   = (Inr (), w\<lparr>signals := signals w @ [(runner_pid (last sts), SIGKILL)],
                                 writer_open := True\<rparr>)))
         \<and> (kill_result w (runner_pid (last sts)) SIGKILL = Fails EPERM \<longrightarrow>
            kill_runner (Some st) w
              = (Inr False, w\<lparr>signals := signals w @ [(runner_pid (last sts), SIGKILL)]\<rparr>)
            \<and> open_checkpoint True (Some st) w
                 = (Inl PermissionError,
                    w\<lparr>signals := signals w @ [(runner_pid (last sts), SIGKILL)]\<rparr>))"
  using assms
  by (cases "lock_nonblocking w") (simp_all add: open_checkpoint_def kill_runner_def Let_def)

theorem forced_takeover_witness:
  "lock_nonblocking ((example_world (Some example_state))
       \<lparr>lock_nonblocking := Lock_False, kill_result := (\<lambda>_ _. Fails ESRCH)\<rparr>) \<noteq> Lock_Fp
   \<and> statuses example_state = Some (the (statuses example_state))
   \<and> the (statuses example_state) \<noteq> []
   \<and> runner_pid (last (the (statuses example_state))) \<noteq> getpid (example_world (Some example_state))
   \<and> fst (open_checkpoint True (Some example_state)
            ((example_world (Some example_state))
               \<lparr>lock_nonblocking := Lock_False, kill_result := (\<lambda>_ _. Fails ESRCH)\<rparr>)) = Inr ()
   \<and> fst (open_checkpoint True (Some example_state)
            ((example_world (Some example_state))
               \<lparr>lock_nonblocking := Lock_False, kill_result := (\<lambda>_ _. Fails EPERM)\<rparr>))
       = Inl PermissionError"
  using forced_takeover
          [of "(example_world (Some example_state))
                 \<lparr>lock_nonblocking := Lock_False, kill_result := (\<lambda>_ _. Fails ESRCH)\<rparr>"
              example_state "the (statuses example_state)"]
        forced_takeover
          [of "(example_world (Some example_state))
                 \<lparr>lock_nonblocking := Lock_False, kill_result := (\<lambda>_ _. Fails EPERM)\<rparr>"
              example_state "the (statuses example_state)"]
  by (simp add: example_world_def example_state_def)

text \<open>
  Claim C8. When \<^verbatim>\<open>lock_file\<close> does not return the file (the lock is held by
  another process) and \<^verbatim>\<open>force\<close> is false, \<^verbatim>\<open>open_checkpoint\<close> raises
  \<^verbatim>\<open>PermissionError\<close>, \<^verbatim>\<open>kill\<close> passes it on, and the world is as
  it was: no record was appended and no signal was sent.
\<close>

theorem open_checkpoint_contended:
  assumes "lock_nonblocking w \<noteq> Lock_Fp"
  shows "open_checkpoint False state w = (Inl PermissionError, w)
         \<and> (terminal_status \<in> {T_KILLED, T_LOST} \<longrightarrow>
              kill False terminal_status clock w = (Inl PermissionError, w))"
  using assms
  by (cases "lock_nonblocking w") (simp_all add: open_checkpoint_def kill_def)

theorem open_checkpoint_contended_witness:
  "lock_nonblocking ((example_world (Some example_state))\<lparr>lock_nonblocking := Lock_False\<rparr>) \<noteq> Lock_Fp
   \<and> T_KILLED \<in> {T_KILLED, T_LOST}
   \<and> fst (open_checkpoint False (Some example_state)
             ((example_world (Some example_state))\<lparr>lock_nonblocking := Lock_False\<rparr>))
       = Inl PermissionError
   \<and> fst (kill False T_KILLED SystemTime
             ((example_world (Some example_state))\<lparr>lock_nonblocking := Lock_False\<rparr>))
       = Inl PermissionError
   \<and> ckpt_log (snd (kill False T_KILLED SystemTime
             ((example_world (Some example_state))\<lparr>lock_nonblocking := Lock_False\<rparr>))) = []
   \<and> signals (snd (kill False T_KILLED SystemTime
             ((example_world (Some example_state))\<lparr>lock_nonblocking := Lock_False\<rparr>))) = []"
  using open_checkpoint_contended
          [of "(example_world (Some example_state))\<lparr>lock_nonblocking := Lock_False\<rparr>"
              "Some example_state" T_KILLED SystemTime]
  by (simp add: example_world_def)

subsection \<open>Task lifecycle files\<close>

text \<open>
  Claim C9. \<^verbatim>\<open>finalize_task\<close> fails its assertion whenever the active task
  file is absent or the finished task file exists, and otherwise moves the active file to
  the finished path. So it fails on a task that was never initialized (and succeeds once
  \<^verbatim>\<open>initialize_task\<close> has run on it), and a second call always fails.
\<close>

theorem finalize_task_precondition:
  "finalize_task w =
     (if active_task w = None \<or> finished_task w \<noteq> None then (Inl AssertionError, w)
      else (Inr (), w\<lparr>finished_task := active_task w, active_task := None\<rparr>))
   \<and> fst (finalize_task (snd (finalize_task w))) = Inl AssertionError
   \<and> (active_task w = None \<and> finished_task w = None \<longrightarrow>
        fst (finalize_task w) = Inl AssertionError
        \<and> finalize_task (snd (initialize_task task w))
            = (Inr (), w\<lparr>finished_task := Some task, active_task := None\<rparr>))"
  by (simp add: finalize_task_def initialize_task_def Let_def)

theorem finalize_task_precondition_witness:
  "active_task ((example_world None)\<lparr>active_task := None\<rparr>) = None
   \<and> finished_task ((example_world None)\<lparr>active_task := None\<rparr>) = None
   \<and> fst (finalize_task ((example_world None)\<lparr>active_task := None\<rparr>)) = Inl AssertionError
   \<and> fst (finalize_task (snd (initialize_task ''task''
                                 ((example_world None)\<lparr>active_task := None\<rparr>)))) = Inr ()
   \<and> finished_task (snd (finalize_task (snd (initialize_task ''task''
                                 ((example_world None)\<lparr>active_task := None\<rparr>))))) = Some ''task''
   \<and> fst (finalize_task (snd (finalize_task (snd (initialize_task ''task''
                                 ((example_world None)\<lparr>active_task := None\<rparr>))))))
       = Inl AssertionError"
  using finalize_task_precondition [of "(example_world None)\<lparr>active_task := None\<rparr>" "''task''"]
  by (simp add: example_world_def finalize_task_def initialize_task_def)

subsection \<open>Killing a task\<close>

text \<open>
  Claim C4. Among the records \<^verbatim>\<open>kill\<close> appends, a \<^verbatim>\<open>LOST\<close> record of a
  process continues a history whose latest state is neither terminal nor
  \<^verbatim>\<open>WAITING\<close>; so a process whose latest state is \<^verbatim>\<open>WAITING\<close> never gets
  one. In one turn of the loop a \<^verbatim>\<open>LOST\<close> record is appended exactly when the
  latest state is neither terminal nor \<^verbatim>\<open>WAITING\<close> and \<^verbatim>\<open>kill_process\<close>
  answered that nothing was found alive. The names of \<^verbatim>\<open>state.processes\<close> are
  those of a dictionary, hence distinct.
\<close>

theorem kill_waiting_never_lost:
  assumes "from_file w (ckpt_log w) = Some st" and "distinct (map fst (processes st))"
  shows
    "(\<exists>recs. ckpt_log (snd (kill force terminal_status clock w)) = ckpt_log w @ recs
        \<and> (\<forall>r. Process_status r \<in> set recs \<and> pstate r = P_LOST \<longrightarrow>
              (\<exists>h. map_of (processes st) (process r) = Some h \<and> h \<noteq> []
                  \<and> \<not> is_process_terminal (pstate (last h)) \<and> pstate (last h) \<noteq> P_WAITING))
        \<and> (\<forall>name h r. map_of (processes st) name = Some h \<and> pstate (last h) = P_WAITING
                       \<and> process r = name \<and> pstate r = P_LOST \<longrightarrow>
                     Process_status r \<notin> set recs))
     \<and> (if history \<noteq> [] \<and> \<not> is_process_terminal (pstate (last history))
            \<and> pstate (last history) \<noteq> P_WAITING
            \<and> fst (kill_process st name w') = Inr False
         then ckpt_log (snd (kill_one st clock (name, history) w'))
                = ckpt_log w' @
                  [Process_status
                     \<lparr>process = name, pstate = P_LOST, seq = seq (last history) + 1,
                      fork_time = None, coordinator_pid = None, start_time = None,
                      pid = None, stop_time = None, return_code = None\<rparr>]
         else (\<exists>recs. ckpt_log (snd (kill_one st clock (name, history) w')) = ckpt_log w' @ recs
                 \<and> (\<forall>r. Process_status r \<in> set recs \<longrightarrow> pstate r \<noteq> P_LOST)))"
proof (rule conjI)
  obtain recs where recs:
    "ckpt_log (snd (kill force terminal_status clock w)) = ckpt_log w @ recs"
    "\<forall>r. Process_status r \<in> set recs \<longrightarrow>
        (\<exists>h. map_of (processes st) (process r) = Some h \<and> appended_ok (process r) h r)"
    using kill_records [OF assms] by blast
  have 1: "\<forall>r. Process_status r \<in> set recs \<and> pstate r = P_LOST \<longrightarrow>
              (\<exists>h. map_of (processes st) (process r) = Some h \<and> h \<noteq> []
                  \<and> \<not> is_process_terminal (pstate (last h)) \<and> pstate (last h) \<noteq> P_WAITING)"
  proof (intro allI impI)
    fix r assume r: "Process_status r \<in> set recs \<and> pstate r = P_LOST"
    with recs(2) obtain h where h: "map_of (processes st) (process r) = Some h"
        "appended_ok (process r) h r" by blast
    from h(2) r have "h \<noteq> [] \<and> \<not> is_process_terminal (pstate (last h))
                      \<and> pstate (last h) \<noteq> P_WAITING"
      by (simp add: appended_ok_def)
    with h(1) show "\<exists>h. map_of (processes st) (process r) = Some h \<and> h \<noteq> []
                  \<and> \<not> is_process_terminal (pstate (last h)) \<and> pstate (last h) \<noteq> P_WAITING"
      by blast
  qed
  have 2: "\<forall>name h r. map_of (processes st) name = Some h \<and> pstate (last h) = P_WAITING
                       \<and> process r = name \<and> pstate r = P_LOST \<longrightarrow>
                     Process_status r \<notin> set recs"
  proof (intro allI impI notI)
    fix name h r
    assume a: "map_of (processes st) name = Some h \<and> pstate (last h) = P_WAITING
                       \<and> process r = name \<and> pstate r = P_LOST"
      and b: "Process_status r \<in> set recs"
    from b recs(2) obtain h' where h': "map_of (processes st) (process r) = Some h'"
        "appended_ok (process r) h' r" by blast
    from a h'(1) have "h' = h" by simp
    with h'(2) a show False by (simp add: appended_ok_def)
  qed
  from recs(1) 1 2
  show "\<exists>recs. ckpt_log (snd (kill force terminal_status clock w)) = ckpt_log w @ recs
        \<and> (\<forall>r. Process_status r \<in> set recs \<and> pstate r = P_LOST \<longrightarrow>
              (\<exists>h. map_of (processes st) (process r) = Some h \<and> h \<noteq> []
                  \<and> \<not> is_process_terminal (pstate (last h)) \<and> pstate (last h) \<noteq> P_WAITING))
        \<and> (\<forall>name h r. map_of (processes st) name = Some h \<and> pstate (last h) = P_WAITING
                       \<and> process r = name \<and> pstate r = P_LOST \<longrightarrow>
                     Process_status r \<notin> set recs)"
    by (intro exI [of _ recs] conjI)
next
  show "if history \<noteq> [] \<and> \<not> is_process_terminal (pstate (last history))
            \<and> pstate (last history) \<noteq> P_WAITING
            \<and> fst (kill_process st name w') = Inr False
         then ckpt_log (snd (kill_one st clock (name, history) w'))
                = ckpt_log w' @
                  [Process_status
                     \<lparr>process = name, pstate = P_LOST, seq = seq (last history) + 1,
                      fork_time = None, coordinator_pid = None, start_time = None,
                      pid = None, stop_time = None, return_code = None\<rparr>]
         else (\<exists>recs. ckpt_log (snd (kill_one st clock (name, history) w')) = ckpt_log w' @ recs
                 \<and> (\<forall>r. Process_status r \<in> set recs \<longrightarrow> pstate r \<noteq> P_LOST))"
    by (rule kill_one_lost)
qed

theorem kill_waiting_never_lost_witness:
  "from_file (example_world (Some example_state)) (ckpt_log (example_world (Some example_state)))
     = Some example_state
   \<and> distinct (map fst (processes example_state))
   \<and> fst (kill_process example_state ''ghost'' (example_world (Some example_state))) = Inr False
   \<and> ckpt_log (snd (kill_one example_state SystemTime
                       (''ghost'', the (map_of (processes example_state) ''ghost''))
                       (example_world (Some example_state))))
       = [Process_status \<lparr>process = ''ghost'', pstate = P_LOST, seq = 3, fork_time = None,
                          coordinator_pid = None, start_time = None, pid = None,
                          stop_time = None, return_code = None\<rparr>]
   \<and> ckpt_log (snd (kill_one example_state SystemTime
                       (''waiter'', the (map_of (processes example_state) ''waiter''))
                       (example_world (Some example_state)))) = []
   \<and> (\<exists>recs. ckpt_log (snd (kill False T_KILLED SystemTime (example_world (Some example_state))))
                = ckpt_log (example_world (Some example_state)) @ recs
        \<and> (\<forall>r. Process_status r \<in> set recs \<and> pstate r = P_LOST \<longrightarrow>
              (\<exists>h. map_of (processes example_state) (process r) = Some h \<and> h \<noteq> []
                  \<and> \<not> is_process_terminal (pstate (last h)) \<and> pstate (last h) \<noteq> P_WAITING))
        \<and> (\<forall>name h r. map_of (processes example_state) name = Some h
                       \<and> pstate (last h) = P_WAITING
                       \<and> process r = name \<and> pstate r = P_LOST \<longrightarrow>
                     Process_status r \<notin> set recs))"
proof -
  have h1: "from_file (example_world (Some example_state))
              (ckpt_log (example_world (Some example_state))) = Some example_state"
    by (simp add: example_world_def)
  have h2: "distinct (map fst (processes example_state))"
    by (simp add: example_state_def)
  note t = kill_waiting_never_lost [OF h1 h2, of False T_KILLED SystemTime]
  have c1: "fst (kill_process example_state ''ghost'' (example_world (Some example_state)))
              = Inr False"
    by (simp add: kill_defs example_defs)
  have c2: "ckpt_log (snd (kill_one example_state SystemTime
                       (''ghost'', the (map_of (processes example_state) ''ghost''))
                       (example_world (Some example_state))))
       = [Process_status \<lparr>process = ''ghost'', pstate = P_LOST, seq = 3, fork_time = None,
                          coordinator_pid = None, start_time = None, pid = None,
                          stop_time = None, return_code = None\<rparr>]"
    using conjunct2 [OF t [of "the (map_of (processes example_state) ''ghost'')" "''ghost''"
                            "example_world (Some example_state)"]] c1
    by (simp add: example_defs is_process_terminal_def TERMINAL_PROCESS_STATES_def)
  have c3: "ckpt_log (snd (kill_one example_state SystemTime
                       (''waiter'', the (map_of (processes example_state) ''waiter''))
                       (example_world (Some example_state)))) = []"
    by (simp add: kill_defs example_defs)
  from h1 h2 c1 c2 c3 conjunct1 [OF t]
  show ?thesis by (intro conjI)
qed

text \<open>
  Claim C5. Every process record \<^verbatim>\<open>kill\<close> appends is \<^verbatim>\<open>KILLED\<close> or
  \<^verbatim>\<open>LOST\<close> and carries the sequence number of the latest status of its process
  plus one; \<^verbatim>\<open>kill\<close> appends at most one record for each process, so a history
  with strictly increasing sequence numbers stays so with the record added.
\<close>

theorem kill_seq_successor:
  assumes "from_file w (ckpt_log w) = Some st" and "distinct (map fst (processes st))"
  shows
    "\<exists>recs. ckpt_log (snd (kill force terminal_status clock w)) = ckpt_log w @ recs
        \<and> (\<forall>r. Process_status r \<in> set recs \<longrightarrow>
              (pstate r = P_KILLED \<or> pstate r = P_LOST)
              \<and> (\<exists>h. map_of (processes st) (process r) = Some h \<and> h \<noteq> []
                    \<and> seq r = seq (last h) + 1
                    \<and> (sorted_wrt (<) (map seq h) \<longrightarrow> sorted_wrt (<) (map seq (h @ [r])))))
        \<and> distinct (map process [r. Process_status r \<leftarrow> recs])"
proof -
  obtain recs where recs:
    "ckpt_log (snd (kill force terminal_status clock w)) = ckpt_log w @ recs"
    "\<forall>r. Process_status r \<in> set recs \<longrightarrow>
        (\<exists>h. map_of (processes st) (process r) = Some h \<and> appended_ok (process r) h r)"
    "distinct (map process [r. Process_status r \<leftarrow> recs])"
    using kill_records [OF assms] by blast
  have 1: "\<forall>r. Process_status r \<in> set recs \<longrightarrow>
              (pstate r = P_KILLED \<or> pstate r = P_LOST)
              \<and> (\<exists>h. map_of (processes st) (process r) = Some h \<and> h \<noteq> []
                    \<and> seq r = seq (last h) + 1
                    \<and> (sorted_wrt (<) (map seq h) \<longrightarrow> sorted_wrt (<) (map seq (h @ [r]))))"
  proof (intro allI impI)
    fix r assume "Process_status r \<in> set recs"
    with recs(2) obtain h where h: "map_of (processes st) (process r) = Some h"
        "appended_ok (process r) h r"
      by blast
    from h(2) have p: "h \<noteq> []" "seq r = seq (last h) + 1"
        "pstate r = P_KILLED \<or> pstate r = P_LOST"
      by (auto simp add: appended_ok_def)
    have "sorted_wrt (<) (map seq h) \<longrightarrow> sorted_wrt (<) (map seq (h @ [r]))"
      using seq_extends [OF p(1) p(2)] by blast
    with h(1) p
    have "\<exists>h. map_of (processes st) (process r) = Some h \<and> h \<noteq> []
                    \<and> seq r = seq (last h) + 1
                    \<and> (sorted_wrt (<) (map seq h) \<longrightarrow> sorted_wrt (<) (map seq (h @ [r])))"
      by (intro exI [of _ h]) simp
    with p(3) show "(pstate r = P_KILLED \<or> pstate r = P_LOST)
              \<and> (\<exists>h. map_of (processes st) (process r) = Some h \<and> h \<noteq> []
                    \<and> seq r = seq (last h) + 1
                    \<and> (sorted_wrt (<) (map seq h) \<longrightarrow> sorted_wrt (<) (map seq (h @ [r]))))"
      by (rule conjI)
  qed
  from recs(1) 1 recs(3) show ?thesis
    by (intro exI [of _ recs] conjI)
qed

theorem kill_seq_successor_witness:
  "from_file (example_world (Some example_state)) (ckpt_log (example_world (Some example_state)))
     = Some example_state
   \<and> distinct (map fst (processes example_state))
   \<and> ckpt_log (snd (kill False T_KILLED SystemTime (example_world (Some example_state))))
       = [Task_status \<lparr>tstate = T_ACTIVE, timestamp_ms = 1005000, runner_pid = 100,
                       runner_uid = 1000\<rparr>,
          Process_status \<lparr>process = ''runner'', pstate = P_KILLED, seq = 3, fork_time = None,
                          coordinator_pid = None, start_time = None, pid = None,
                          stop_time = Some (Finite 1005), return_code = Some (- 9)\<rparr>,
          Process_status \<lparr>process = ''ghost'', pstate = P_LOST, seq = 3, fork_time = None,
                          coordinator_pid = None, start_time = None, pid = None,
                          stop_time = None, return_code = None\<rparr>,
          Task_status \<lparr>tstate = T_KILLED, timestamp_ms = 1005000, runner_pid = 100,
                       runner_uid = 1000\<rparr>]
   \<and> (\<exists>recs. ckpt_log (snd (kill False T_KILLED SystemTime (example_world (Some example_state))))
                = ckpt_log (example_world (Some example_state)) @ recs
        \<and> (\<forall>r. Process_status r \<in> set recs \<longrightarrow>
              (pstate r = P_KILLED \<or> pstate r = P_LOST)
              \<and> (\<exists>h. map_of (processes example_state) (process r) = Some h \<and> h \<noteq> []
                    \<and> seq r = seq (last h) + 1
                    \<and> (sorted_wrt (<) (map seq h) \<longrightarrow> sorted_wrt (<) (map seq (h @ [r])))))
        \<and> distinct (map process [r. Process_status r \<leftarrow> recs]))"
proof -
  have h1: "from_file (example_world (Some example_state))
              (ckpt_log (example_world (Some example_state))) = Some example_state"
    by (simp add: example_world_def)
  have h2: "distinct (map fst (processes example_state))"
    by (simp add: example_state_def)
  have c: "ckpt_log (snd (kill False T_KILLED SystemTime (example_world (Some example_state))))
       = [Task_status \<lparr>tstate = T_ACTIVE, timestamp_ms = 1005000, runner_pid = 100,
                       runner_uid = 1000\<rparr>,
          Process_status \<lparr>process = ''runner'', pstate = P_KILLED, seq = 3, fork_time = None,
                          coordinator_pid = None, start_time = None, pid = None,
                          stop_time = Some (Finite 1005), return_code = Some (- 9)\<rparr>,
          Process_status \<lparr>process = ''ghost'', pstate = P_LOST, seq = 3, fork_time = None,
                          coordinator_pid = None, start_time = None, pid = None,
                          stop_time = None, return_code = None\<rparr>,
          Task_status \<lparr>tstate = T_KILLED, timestamp_ms = 1005000, runner_pid = 100,
                       runner_uid = 1000\<rparr>]"
    by (simp add: kill_defs example_defs)
  from h1 h2 c kill_seq_successor [OF h1 h2, of False T_KILLED SystemTime]
  show ?thesis by (intro conjI)
qed

text \<open>
  Claim C1, as the code has it. On a task whose latest status is terminal, neither of two
  calls of \<^verbatim>\<open>kill\<close> in succession appends a record. When the replayed state has a
  header, \<^verbatim>\<open>kill\<close> is \<^verbatim>\<open>open_checkpoint\<close> followed by
  \<^verbatim>\<open>finalize_task\<close>: each call that obtains the writer goes on to finalize; the
  first call returns without error exactly when it obtains the writer, the active task file
  exists and the finished one does not; after such a first call the second call does not
  return without error, whatever \<^verbatim>\<open>lock_file\<close> does then: when it obtains the
  writer, the assertion of \<^verbatim>\<open>finalize_task\<close> fails, since the active file has been
  moved. When the replayed state has no header, \<^verbatim>\<open>kill\<close> returns right after
  \<^verbatim>\<open>open_checkpoint\<close> (lines 272-274 come before the terminal test): each call
  returns without error exactly when it obtains the writer, and neither touches the task
  files.
\<close>

theorem kill_terminal_twice:
  assumes "from_file w (ckpt_log w) = Some st"
    and "statuses st = Some sts" and "sts \<noteq> []" and "is_task_terminal (tstate (last sts))"
    and "terminal_status \<in> {T_KILLED, T_LOST}" and "terminal_status' \<in> {T_KILLED, T_LOST}"
    and "from_file w2 = from_file (snd (kill force terminal_status clock w))"
    and "ckpt_log w2 = ckpt_log (snd (kill force terminal_status clock w))"
    and "active_task w2 = active_task (snd (kill force terminal_status clock w))"
    and "finished_task w2 = finished_task (snd (kill force terminal_status clock w))"
  shows
    "ckpt_log (snd (kill force terminal_status clock w)) = ckpt_log w
     \<and> ckpt_log (snd (kill force' terminal_status' clock' w2)) = ckpt_log w
     \<and> (header st \<noteq> None \<longrightarrow>
          kill force terminal_status clock w =
            (case open_checkpoint force (Some st) w of
               (Inl e, w1) \<Rightarrow> (Inl e, w1)
             | (Inr u, w1) \<Rightarrow> finalize_task w1)
          \<and> kill force' terminal_status' clock' w2 =
              (case open_checkpoint force' (Some st) w2 of
                 (Inl e, w1) \<Rightarrow> (Inl e, w1)
               | (Inr u, w1) \<Rightarrow> finalize_task w1)
          \<and> (fst (kill force terminal_status clock w) = Inr () \<longleftrightarrow>
                fst (open_checkpoint force (Some st) w) = Inr ()
                \<and> active_task w \<noteq> None \<and> finished_task w = None)
          \<and> (fst (kill force terminal_status clock w) = Inr () \<longrightarrow>
                fst (kill force' terminal_status' clock' w2) \<noteq> Inr ()
                \<and> (fst (open_checkpoint force' (Some st) w2) = Inr () \<longrightarrow>
                     fst (kill force' terminal_status' clock' w2) = Inl AssertionError)))
     \<and> (header st = None \<longrightarrow>
          kill force terminal_status clock w = open_checkpoint force (Some st) w
          \<and> kill force' terminal_status' clock' w2 = open_checkpoint force' (Some st) w2
          \<and> active_task (snd (kill force' terminal_status' clock' w2)) = active_task w
          \<and> finished_task (snd (kill force' terminal_status' clock' w2)) = finished_task w)"
proof (cases "header st = None")
  case False
  note first = assms(1) False assms(2-5)
  have l1: "ckpt_log (snd (kill force terminal_status clock w)) = ckpt_log w"
    by (rule kill_terminal_fields(1) [OF first])
  have f1: "from_file (snd (kill force terminal_status clock w)) = from_file w"
    by (rule kill_terminal_fields(2) [OF first])
  have st2: "from_file w2 (ckpt_log w2) = Some st"
    using assms(1,7,8) l1 f1 by simp
  note second = st2 False assms(2-4) assms(6)
  have l2: "ckpt_log (snd (kill force' terminal_status' clock' w2)) = ckpt_log w"
    using kill_terminal_fields(1) [OF second, of force' clock'] assms(8) l1 by simp
  have e1: "kill force terminal_status clock w =
         (case open_checkpoint force (Some st) w of
            (Inl e, w1) \<Rightarrow> (Inl e, w1)
          | (Inr u, w1) \<Rightarrow> finalize_task w1)"
    by (rule kill_terminal_eq [OF first])
  have e2: "kill force' terminal_status' clock' w2 =
         (case open_checkpoint force' (Some st) w2 of
            (Inl e, w1) \<Rightarrow> (Inl e, w1)
          | (Inr u, w1) \<Rightarrow> finalize_task w1)"
    by (rule kill_terminal_eq [OF second])
  have s1: "fst (kill force terminal_status clock w) = Inr () \<longleftrightarrow>
           fst (open_checkpoint force (Some st) w) = Inr ()
           \<and> active_task w \<noteq> None \<and> finished_task w = None"
    by (rule kill_terminal_fields(3) [OF first])
  have s2: "fst (kill force terminal_status clock w) = Inr () \<longrightarrow>
           fst (kill force' terminal_status' clock' w2) \<noteq> Inr ()
           \<and> (fst (open_checkpoint force' (Some st) w2) = Inr () \<longrightarrow>
                fst (kill force' terminal_status' clock' w2) = Inl AssertionError)"
  proof
    assume ok: "fst (kill force terminal_status clock w) = Inr ()"
    then have "active_task (snd (kill force terminal_status clock w)) = None"
      using kill_terminal_fields(4) [OF first, of force clock] by simp
    then have gone: "active_task w2 = None" using assms(9) by simp
    have a: "fst (kill force' terminal_status' clock' w2) \<noteq> Inr ()"
      using kill_terminal_fields(3) [OF second, of force' clock'] gone by simp
    have b: "fst (open_checkpoint force' (Some st) w2) = Inr () \<longrightarrow>
                fst (kill force' terminal_status' clock' w2) = Inl AssertionError"
      using kill_terminal_fields(5) [OF second, of force' clock'] gone by simp
    from a b show "fst (kill force' terminal_status' clock' w2) \<noteq> Inr ()
           \<and> (fst (open_checkpoint force' (Some st) w2) = Inr () \<longrightarrow>
                fst (kill force' terminal_status' clock' w2) = Inl AssertionError)"
      by (rule conjI)
  qed
  have A: "header st \<noteq> None \<longrightarrow>
          kill force terminal_status clock w =
            (case open_checkpoint force (Some st) w of
               (Inl e, w1) \<Rightarrow> (Inl e, w1)
             | (Inr u, w1) \<Rightarrow> finalize_task w1)
          \<and> kill force' terminal_status' clock' w2 =
              (case open_checkpoint force' (Some st) w2 of
                 (Inl e, w1) \<Rightarrow> (Inl e, w1)
               | (Inr u, w1) \<Rightarrow> finalize_task w1)
          \<and> (fst (kill force terminal_status clock w) = Inr () \<longleftrightarrow>
                fst (open_checkpoint force (Some st) w) = Inr ()
                \<and> active_task w \<noteq> None \<and> finished_task w = None)
          \<and> (fst (kill force terminal_status clock w) = Inr () \<longrightarrow>
                fst (kill force' terminal_status' clock' w2) \<noteq> Inr ()
                \<and> (fst (open_checkpoint force' (Some st) w2) = Inr () \<longrightarrow>
                     fst (kill force' terminal_status' clock' w2) = Inl AssertionError))"
    by (rule impI) (rule conjI [OF e1 conjI [OF e2 conjI [OF s1 s2]]])
  have B: "header st = None \<longrightarrow>
          kill force terminal_status clock w = open_checkpoint force (Some st) w
          \<and> kill force' terminal_status' clock' w2 = open_checkpoint force' (Some st) w2
          \<and> active_task (snd (kill force' terminal_status' clock' w2)) = active_task w
          \<and> finished_task (snd (kill force' terminal_status' clock' w2)) = finished_task w"
    by (rule impI, rule notE [OF False])
  from l1 l2 A B show ?thesis by (intro conjI)
next
  case True
  have e1: "kill force terminal_status clock w = open_checkpoint force (Some st) w"
    by (rule kill_headerless_eq [OF assms(1) True assms(5)])
  have o1: "ckpt_log (snd (open_checkpoint force (Some st) w)) = ckpt_log w"
    "active_task (snd (open_checkpoint force (Some st) w)) = active_task w"
    "finished_task (snd (open_checkpoint force (Some st) w)) = finished_task w"
    "from_file (snd (open_checkpoint force (Some st) w)) = from_file w"
    using open_checkpoint_log [of force "Some st" w] by simp_all
  have st2: "from_file w2 (ckpt_log w2) = Some st"
    using assms(1,7,8) e1 o1 by simp
  have e2: "kill force' terminal_status' clock' w2 = open_checkpoint force' (Some st) w2"
    by (rule kill_headerless_eq [OF st2 True assms(6)])
  have o2: "ckpt_log (snd (open_checkpoint force' (Some st) w2)) = ckpt_log w2"
    "active_task (snd (open_checkpoint force' (Some st) w2)) = active_task w2"
    "finished_task (snd (open_checkpoint force' (Some st) w2)) = finished_task w2"
    using open_checkpoint_log [of force' "Some st" w2] by simp_all
  have l1: "ckpt_log (snd (kill force terminal_status clock w)) = ckpt_log w"
    using e1 o1 by simp
  have l2: "ckpt_log (snd (kill force' terminal_status' clock' w2)) = ckpt_log w"
    using e2 o2 assms(8) l1 by simp
  have a2: "active_task (snd (kill force' terminal_status' clock' w2)) = active_task w"
    using e1 e2 o1 o2 assms(9) by simp
  have f2: "finished_task (snd (kill force' terminal_status' clock' w2)) = finished_task w"
    using e1 e2 o1 o2 assms(10) by simp
  have B: "header st = None \<longrightarrow>
          kill force terminal_status clock w = open_checkpoint force (Some st) w
          \<and> kill force' terminal_status' clock' w2 = open_checkpoint force' (Some st) w2
          \<and> active_task (snd (kill force' terminal_status' clock' w2)) = active_task w
          \<and> finished_task (snd (kill force' terminal_status' clock' w2)) = finished_task w"
    by (rule impI) (rule conjI [OF e1 conjI [OF e2 conjI [OF a2 f2]]])
  have A: "header st \<noteq> None \<longrightarrow>
          kill force terminal_status clock w =
            (case open_checkpoint force (Some st) w of
               (Inl e, w1) \<Rightarrow> (Inl e, w1)
             | (Inr u, w1) \<Rightarrow> finalize_task w1)
          \<and> kill force' terminal_status' clock' w2 =
              (case open_checkpoint force' (Some st) w2 of
                 (Inl e, w1) \<Rightarrow> (Inl e, w1)
               | (Inr u, w1) \<Rightarrow> finalize_task w1)
          \<and> (fst (kill force terminal_status clock w) = Inr () \<longleftrightarrow>
                fst (open_checkpoint force (Some st) w) = Inr ()
                \<and> active_task w \<noteq> None \<and> finished_task w = None)
          \<and> (fst (kill force terminal_status clock w) = Inr () \<longrightarrow>
                fst (kill force' terminal_status' clock' w2) \<noteq> Inr ()
                \<and> (fst (open_checkpoint force' (Some st) w2) = Inr () \<longrightarrow>
                     fst (kill force' terminal_status' clock' w2) = Inl AssertionError))"
    using True by simp
  from l1 l2 A B show ?thesis by (intro conjI)
qed

theorem kill_terminal_twice_witness:
  "from_file (example_world (Some terminal_state)) (ckpt_log (example_world (Some terminal_state)))
     = Some terminal_state
   \<and> from_file (example_world (Some headerless_state))
        (ckpt_log (example_world (Some headerless_state))) = Some headerless_state
   \<and> header terminal_state \<noteq> None
   \<and> header headerless_state = None
   \<and> statuses terminal_state = Some (the (statuses terminal_state))
   \<and> the (statuses terminal_state) \<noteq> []
   \<and> is_task_terminal (tstate (last (the (statuses terminal_state))))
   \<and> statuses headerless_state = Some (the (statuses headerless_state))
   \<and> the (statuses headerless_state) \<noteq> []
   \<and> is_task_terminal (tstate (last (the (statuses headerless_state))))
   \<and> T_KILLED \<in> {T_KILLED, T_LOST}
   \<and> ckpt_log (snd (kill False T_KILLED SystemTime (example_world (Some terminal_state)))) = []
   \<and> ckpt_log (snd (kill True T_KILLED SystemTime
                      (snd (kill False T_KILLED SystemTime (example_world (Some terminal_state))))))
       = []
   \<and> fst (kill False T_KILLED SystemTime (example_world (Some terminal_state))) = Inr ()
   \<and> fst (kill True T_KILLED SystemTime
            (snd (kill False T_KILLED SystemTime (example_world (Some terminal_state)))))
       = Inl AssertionError
   \<and> kill False T_KILLED SystemTime (example_world (Some headerless_state))
       = open_checkpoint False (Some headerless_state) (example_world (Some headerless_state))
   \<and> fst (kill False T_KILLED SystemTime (example_world (Some headerless_state))) = Inr ()
   \<and> fst (kill False T_KILLED SystemTime
            (snd (kill False T_KILLED SystemTime (example_world (Some headerless_state)))))
       = Inr ()
   \<and> active_task (snd (kill False T_KILLED SystemTime
            (snd (kill False T_KILLED SystemTime (example_world (Some headerless_state))))))
       = Some ''task''"
proof -
  let ?w = "example_world (Some terminal_state)"
  let ?w2 = "snd (kill False T_KILLED SystemTime ?w)"
  let ?v = "example_world (Some headerless_state)"
  let ?v2 = "snd (kill False T_KILLED SystemTime ?v)"
  have h1: "from_file ?w (ckpt_log ?w) = Some terminal_state"
    and g1: "from_file ?v (ckpt_log ?v) = Some headerless_state"
    by (simp_all add: example_world_def)
  have h2: "header terminal_state \<noteq> None"
    and h3: "statuses terminal_state = Some (the (statuses terminal_state))"
    and h4: "the (statuses terminal_state) \<noteq> []"
    and h5: "is_task_terminal (tstate (last (the (statuses terminal_state))))"
    by (simp_all add: terminal_state_def is_task_terminal_def TERMINAL_TASK_STATES_def)
  have g2: "header headerless_state = None"
    and g3: "statuses headerless_state = Some (the (statuses headerless_state))"
    and g4: "the (statuses headerless_state) \<noteq> []"
    and g5: "is_task_terminal (tstate (last (the (statuses headerless_state))))"
    by (simp_all add: headerless_state_def is_task_terminal_def TERMINAL_TASK_STATES_def)
  have h6: "T_KILLED \<in> {T_KILLED, T_LOST}" by simp
  note t = kill_terminal_twice [OF h1 h3 h4 h5 h6 h6 refl refl refl refl,
                                of False SystemTime True SystemTime]
  note t1 = conjunct1 [OF t]
  note t2 = conjunct1 [OF conjunct2 [OF t]]
  note t3 = mp [OF conjunct1 [OF conjunct2 [OF conjunct2 [OF t]]] h2]
  have o1: "fst (open_checkpoint False (Some terminal_state) ?w) = Inr ()"
    and o2: "active_task ?w \<noteq> None" and o3: "finished_task ?w = None"
    by (simp_all add: open_checkpoint_def example_world_def)
  have r1: "fst (kill False T_KILLED SystemTime ?w) = Inr ()"
    using t3 o1 o2 o3 by blast
  have o4: "fst (open_checkpoint True (Some terminal_state) ?w2) = Inr ()"
    by (simp add: kill_defs example_defs)
  have r2: "fst (kill True T_KILLED SystemTime ?w2) = Inl AssertionError"
    using t3 r1 o4 by blast
  have e: "ckpt_log ?w = []"
    by (simp add: example_world_def)
  have l1: "ckpt_log ?w2 = []"
    by (rule trans [OF t1 e])
  have l2: "ckpt_log (snd (kill True T_KILLED SystemTime ?w2)) = []"
    by (rule trans [OF t2 e])
  note u = kill_terminal_twice [OF g1 g3 g4 g5 h6 h6 refl refl refl refl,
                                of False SystemTime False SystemTime]
  note u4 = mp [OF conjunct2 [OF conjunct2 [OF conjunct2 [OF u]]] g2]
  have k1: "kill False T_KILLED SystemTime ?v = open_checkpoint False (Some headerless_state) ?v"
    by (rule conjunct1 [OF u4])
  have k2: "fst (kill False T_KILLED SystemTime ?v) = Inr ()"
    unfolding k1 by (simp add: open_checkpoint_def example_world_def)
  have k3: "fst (kill False T_KILLED SystemTime ?v2) = Inr ()"
    by (simp add: kill_defs example_defs)
  have a0: "active_task ?v = Some ''task''"
    by (simp add: example_world_def)
  have k4: "active_task (snd (kill False T_KILLED SystemTime ?v2)) = Some ''task''"
    by (rule trans [OF conjunct1 [OF conjunct2 [OF conjunct2 [OF u4]]] a0])
  from h1 g1 h2 g2 h3 h4 h5 g3 g4 g5 h6 l1 l2 r1 r2 k1 k2 k3 k4 show ?thesis
    by (intro conjI)
qed

theorem kill_terminal_twice_counterexample:
  "fst (kill False T_KILLED SystemTime (example_world (Some terminal_state))) = Inr ()
   \<and> fst (kill False T_KILLED SystemTime
            (snd (kill False T_KILLED SystemTime (example_world (Some terminal_state)))))
       = Inl AssertionError"
  by (simp add: kill_defs example_defs)

text \<open>
  Claim C2 (the checkpoint writer is closed on every exit path of \<^verbatim>\<open>kill\<close>)
  does not hold of the code. The writer is closed by \<^verbatim>\<open>with closing(ckpt)\<close>,
  which the two early returns of \<^verbatim>\<open>kill\<close> do not reach: on a task that is
  already terminal, and on a checkpoint that replays to no state, \<^verbatim>\<open>kill\<close>
  returns with the writer still open. On the path through the block it is closed.
\<close>

theorem kill_leaves_writer_open:
  "fst (kill False T_KILLED SystemTime (example_world (Some terminal_state))) = Inr ()
   \<and> writer_open (snd (kill False T_KILLED SystemTime (example_world (Some terminal_state))))
   \<and> fst (kill False T_KILLED SystemTime (example_world None)) = Inr ()
   \<and> writer_open (snd (kill False T_KILLED SystemTime (example_world None)))
   \<and> fst (kill False T_KILLED SystemTime (example_world (Some example_state))) = Inr ()
   \<and> \<not> writer_open (snd (kill False T_KILLED SystemTime (example_world (Some example_state))))"
  by (simp add: kill_defs example_defs)

end
